theory Spec2Isabelle
  imports Main "HOL-Library.AList"
begin

section \<open>Strings\<close>

text \<open>
  A string of the program is a sequence of UTF-16 code units; \<open>length\<close> counts code
  units, as the \<open>length\<close> property of the source does.  Literals of the source are written
  \<open>str ''...''\<close>; the ten accented vowels are given by their code units.
\<close>

type_synonym code_unit = nat
type_synonym jstring = "code_unit list"

definition str :: "string \<Rightarrow> jstring" where
  "str s = map of_char s"

text \<open>The class \<open>\w\<close> of a regular expression without the unicode flag: \<open>[A-Za-z0-9_]\<close>.\<close>

definition isWordChar :: "code_unit \<Rightarrow> bool" where
  "isWordChar c \<longleftrightarrow> (48 \<le> c \<and> c \<le> 57) \<or> (65 \<le> c \<and> c \<le> 90) \<or> c = 95 \<or> (97 \<le> c \<and> c \<le> 122)"

text \<open>The class \<open>\s\<close>, which is also what \<open>trim\<close> removes: white space and line terminators.\<close>

definition isSpace :: "code_unit \<Rightarrow> bool" where
  "isSpace c \<longleftrightarrow> c \<in> {9, 10, 11, 12, 13, 32, 160, 5760, 8232, 8233, 8239, 8287, 12288, 65279}
     \<or> (8192 \<le> c \<and> c \<le> 8202)"

text \<open>
  \<open>toLowerCase\<close>.  The capitals of ASCII and Latin-1 go to their small letters, U+0130 to
  \<open>i\<close> followed by U+0307, the Kelvin sign U+212A to \<open>k\<close> and the Angstrom sign U+212B to
  U+00E5.  Every other code unit is left as it is: its lower-case form is, like the unit itself,
  no word character, no white space, no apostrophe and none of the accented vowels, and the
  program looks at nothing else in a lower-cased string.
\<close>

definition lower_unit :: "code_unit \<Rightarrow> jstring" where
  "lower_unit c =
     (if 65 \<le> c \<and> c \<le> 90 then [c + 32]
      else if 192 \<le> c \<and> c \<le> 222 \<and> c \<noteq> 215 then [c + 32]
      else if c = 304 then [105, 775]
      else if c = 8490 then [107]
      else if c = 8491 then [229]
      else [c])"

definition toLowerCase :: "jstring \<Rightarrow> jstring" where
  "toLowerCase s = concat (map lower_unit s)"

definition trim :: "jstring \<Rightarrow> jstring" where
  "trim s = rev (dropWhile isSpace (rev (dropWhile isSpace s)))"

definition endsWith :: "jstring \<Rightarrow> jstring \<Rightarrow> bool" where
  "endsWith s p \<longleftrightarrow> length p \<le> length s \<and> drop (length s - length p) s = p"

text \<open>\<open>s.slice(-n)\<close>: the last \<open>n\<close> code units, all of \<open>s\<close> when it is shorter.\<close>

definition slice_last :: "nat \<Rightarrow> jstring \<Rightarrow> jstring" where
  "slice_last n s = drop (length s - n) s"

text \<open>
  \<open>s.split(/\s+/)\<close>: the pieces between the maximal runs of white space; a run at either end
  of \<open>s\<close> leaves an empty piece there, and the empty string gives one empty piece.
\<close>

function split_spaces :: "jstring \<Rightarrow> jstring list" where
  "split_spaces s =
     (case dropWhile (\<lambda>c. \<not> isSpace c) s of
        [] \<Rightarrow> [s]
      | r # rest \<Rightarrow> takeWhile (\<lambda>c. \<not> isSpace c) s # split_spaces (dropWhile isSpace rest))"
  by pat_completeness auto
termination
proof (relation "measure length")
  fix s :: jstring and r rest
  assume "dropWhile (\<lambda>c. \<not> isSpace c) s = r # rest"
  then have "length (r # rest) \<le> length s"
    by (metis length_dropWhile_le)
  moreover have "length (dropWhile isSpace rest) \<le> length rest"
    by (rule length_dropWhile_le)
  ultimately show "(dropWhile isSpace rest, s) \<in> measure length"
    by simp
qed simp

declare split_spaces.simps [simp del]

text \<open>\<open>s.split('\n')\<close>.\<close>

fun split_lines :: "jstring \<Rightarrow> jstring list" where
  "split_lines [] = [[]]"
| "split_lines (c # s) =
     (if c = 10 then [] # split_lines s
      else (case split_lines s of l # ls \<Rightarrow> (c # l) # ls | [] \<Rightarrow> [[c]]))"

section \<open>Values that a table lookup can return\<close>

text \<open>
  The tables of the source are object literals read with \<open>table[key]\<close>.  Such a read also
  finds the properties every object inherits; the only inherited names made of lower-case word
  characters are \<open>constructor\<close> (the function \<open>Object\<close>) and \<open>__proto__\<close> (the object
  \<open>Object.prototype\<close>).  So the value a lookup returns is a string of the table or one of
  these two objects, both of which count as true in a condition.
\<close>

datatype inherited = ObjectFunction | ObjectPrototype

datatype jsval = JStr jstring | JObj inherited

datatype error = TypeError

definition inherited_property :: "jstring \<Rightarrow> inherited option" where
  "inherited_property k =
     (if k = str ''constructor'' then Some ObjectFunction
      else if k = str ''__proto__'' then Some ObjectPrototype
      else None)"

fun truthy :: "jsval \<Rightarrow> bool" where
  "truthy (JStr s) = (s \<noteq> [])"
| "truthy (JObj _) = True"

section \<open>Rhyme-key extraction\<close>

definition specialCases :: "(jstring \<times> jstring) list" where
  "specialCases =
    [(str ''star'', str ''ar''), (str ''are'', str ''ar''), (str ''car'', str ''ar''),
     (str ''far'', str ''ar''), (str ''bar'', str ''ar''),
     (str ''high'', str ''igh''), (str ''sky'', str ''igh''), (str ''my'', str ''igh''),
     (str ''fly'', str ''igh''), (str ''by'', str ''igh''), (str ''try'', str ''igh''),
     (str ''cry'', str ''igh''), (str ''die'', str ''igh''), (str ''tie'', str ''igh''),
     (str ''pie'', str ''igh''), (str ''lie'', str ''igh''), (str ''i'', str ''igh''),
     (str ''why'', str ''igh''), (str ''guy'', str ''igh''), (str ''buy'', str ''igh''),
     (str ''dry'', str ''igh''), (str ''eye'', str ''igh''), (str ''spy'', str ''igh''),
     (str ''shy'', str ''igh''), (str ''topic'', str ''ic''), (str ''milwaukee'', str ''kee''),
     (str ''filtro'', str ''tro''), (str ''dipinto'', str ''nto''), (str ''amico'', str ''ico''),
     (str ''sparito'', str ''ito''), (str ''zion'', str ''on''), (str ''sole'', str ''ole''),
     (str ''sali'', str ''ali'')]"

text \<open>\<open>specialCases[cleanWord]\<close>: an entry of the table, else an inherited property.\<close>

definition specialCase :: "jstring \<Rightarrow> jsval option" where
  "specialCase k =
     (case map_of specialCases k of
        Some v \<Rightarrow> Some (JStr v)
      | None \<Rightarrow> map_option JObj (inherited_property k))"

definition patterns :: "jstring list" where
  "patterns =
    [str ''ing'', str ''tion'', str ''ness'', str ''ful'', str ''less'', str ''ly'', str ''ed'',
     str ''er'', str ''est'', str ''ize'', str ''ise'', str ''ous'', str ''able'', str ''ible'',
     str ''ight'', str ''ar'', str ''igh'']"

definition vowels_aeiou :: "code_unit list" where
  "vowels_aeiou = str ''aeiou''"

definition consonants_y :: "code_unit list" where
  "consonants_y = str ''bcdfghjklmnpqrstvwxyz''"

text \<open>The test \<open>/[aeiou][bcdfghjklmnpqrstvwxyz]$/\<close>.\<close>

definition endsVowelConsonant :: "jstring \<Rightarrow> bool" where
  "endsVowelConsonant s \<longleftrightarrow>
     2 \<le> length s \<and> s ! (length s - 2) \<in> set vowels_aeiou \<and> s ! (length s - 1) \<in> set consonants_y"

definition cleanWord :: "jstring \<Rightarrow> jstring" where
  "cleanWord word = filter isWordChar (toLowerCase word)"

text \<open>The part of \<open>extractRhymingSyllable\<close> after the exception table.\<close>

definition ending :: "jstring \<Rightarrow> jstring" where
  "ending cw =
     (case find (endsWith cw) patterns of
        Some p \<Rightarrow> p
      | None \<Rightarrow>
          if 3 \<le> length cw then
            (let lastThree = slice_last 3 cw; lastTwo = slice_last 2 cw in
             if endsVowelConsonant lastTwo then lastTwo
             else if 4 \<le> length cw then lastThree else lastTwo)
          else cw)"

definition extractRhymingSyllable :: "jstring \<Rightarrow> jsval" where
  "extractRhymingSyllable word =
     (if word = [] then JStr []
      else (case specialCase (cleanWord word) of
              Some v \<Rightarrow> if truthy v then v else JStr (ending (cleanWord word))
            | None \<Rightarrow> JStr (ending (cleanWord word))))"

section \<open>The two rhyme tests\<close>

text \<open>
  The helpers below are private to the module and are applied to rhyme keys only.  A key that
  is a string has at most four code units (lemma \<open>ending_length\<close> and the exception
  table), so no inherited name is ever looked up in their tables: a string key finds its entry or
  nothing.  A key that is one of the two inherited objects is turned into its string form by the
  lookup, which is no key of any table either.
\<close>

definition rhymeGroups :: "(jstring \<times> jstring list) list" where
  "rhymeGroups =
    [(str ''ar'', [str ''are'', str ''ar'']),
     (str ''are'', [str ''ar'', str ''are'']),
     (str ''ay'', [str ''ey'', str ''ay'', str ''ai'', str ''eigh'']),
     (str ''ey'', [str ''ay'', str ''ey'', str ''ai'', str ''eigh'']),
     (str ''ai'', [str ''ay'', str ''ey'', str ''ai'', str ''eigh'']),
     (str ''eigh'', [str ''ay'', str ''ey'', str ''ai'', str ''eigh'']),
     (str ''igh'', [str ''y'', str ''igh'', str ''ie'', str ''ky'', str ''i'']),
     (str ''y'', [str ''igh'', str ''y'', str ''ie'', str ''ky'', str ''i'']),
     (str ''ie'', [str ''igh'', str ''y'', str ''ie'', str ''ky'', str ''i'']),
     (str ''ky'', [str ''igh'', str ''y'', str ''ie'', str ''ky'', str ''i'']),
     (str ''i'', [str ''igh'', str ''y'', str ''ie'', str ''ky'', str ''i'']),
     (str ''ow'', [str ''ou'', str ''ow'']),
     (str ''ou'', [str ''ow'', str ''ou'']),
     (str ''ing'', [str ''ing'']),
     (str ''tro'', [str ''tro'', str ''nto'', str ''ato'', str ''eto'', str ''oto'']),
     (str ''nto'', [str ''tro'', str ''nto'', str ''ato'', str ''eto'', str ''oto'']),
     (str ''ato'', [str ''tro'', str ''nto'', str ''ato'', str ''eto'', str ''oto'']),
     (str ''eto'', [str ''tro'', str ''nto'', str ''ato'', str ''eto'', str ''oto'']),
     (str ''oto'', [str ''tro'', str ''nto'', str ''ato'', str ''eto'', str ''oto'']),
     (str ''ico'', [str ''ico'', str ''ito'']),
     (str ''ito'', [str ''ico'', str ''ito'']),
     (str ''ic'', [str ''ic'', str ''kee'']),
     (str ''kee'', [str ''ic'', str ''kee'']),
     (str ''ight'', [str ''ite'', str ''ight'']),
     (str ''ite'', [str ''ight'', str ''ite''])]"

text \<open>\<open>table[syllable] || [syllable]\<close>, the closure \<open>getRhymeGroup\<close> of both tests.\<close>

fun getRhymeGroup :: "(jstring \<times> jstring list) list \<Rightarrow> jsval \<Rightarrow> jsval list" where
  "getRhymeGroup table (JStr s) =
     (case map_of table s of Some g \<Rightarrow> map JStr g | None \<Rightarrow> [JStr s])"
| "getRhymeGroup table (JObj obj) = [JObj obj]"

definition consonants_no_y :: "code_unit list" where
  "consonants_no_y = str ''bcdfghjklmnpqrstvwxz''"

text \<open>A call of \<open>replace\<close> or \<open>match\<close> on a key that is no string raises a TypeError.\<close>

fun getVowelPattern :: "jsval \<Rightarrow> error + jstring" where
  "getVowelPattern (JStr s) = Inr (toLowerCase (filter (\<lambda>c. c \<notin> set consonants_no_y) s))"
| "getVowelPattern (JObj obj) = Inl TypeError"

definition vowelSimilarity :: "(jstring \<times> jstring list) list" where
  "vowelSimilarity =
    [(str ''o'', [str ''o'', str ''ao'', str ''eo'', str ''io'']),
     (str ''ao'', [str ''o'', str ''ao'', str ''eo'', str ''io'']),
     (str ''eo'', [str ''o'', str ''ao'', str ''eo'', str ''io'']),
     (str ''io'', [str ''o'', str ''ao'', str ''eo'', str ''io'']),
     (str ''i'', [str ''i'', str ''ai'', str ''ei'']),
     (str ''ai'', [str ''i'', str ''ai'', str ''ei'']),
     (str ''ei'', [str ''i'', str ''ai'', str ''ei'']),
     (str ''e'', [str ''e'', str ''ee'', str ''ie'']),
     (str ''ee'', [str ''e'', str ''ee'', str ''ie'']),
     (str ''ie'', [str ''e'', str ''ee'', str ''ie''])]"

definition similarVowels :: "jstring \<Rightarrow> jstring list" where
  "similarVowels v = (case map_of vowelSimilarity v of Some l \<Rightarrow> l | None \<Rightarrow> [v])"

definition checkAssonance :: "jsval \<Rightarrow> jsval \<Rightarrow> error + bool" where
  "checkAssonance syllable1 syllable2 =
     (case getVowelPattern syllable1 of
        Inl e \<Rightarrow> Inl e
      | Inr vowels1 \<Rightarrow>
          (case getVowelPattern syllable2 of
             Inl e \<Rightarrow> Inl e
           | Inr vowels2 \<Rightarrow>
               if vowels1 \<noteq> [] \<and> vowels2 \<noteq> [] then
                 (if vowels1 = vowels2 then Inr True
                  else Inr (vowels2 \<in> set (similarVowels vowels1)))
               else Inr False))"

definition wordsRhyme :: "jstring \<Rightarrow> jstring \<Rightarrow> error + bool" where
  "wordsRhyme word1 word2 =
     (let syllable1 = extractRhymingSyllable word1;
          syllable2 = extractRhymingSyllable word2 in
      if \<not> truthy syllable1 \<or> \<not> truthy syllable2 then Inr False
      else if syllable1 = syllable2 then Inr True
      else
        (let group1 = getRhymeGroup rhymeGroups syllable1;
             group2 = getRhymeGroup rhymeGroups syllable2 in
         if list_ex (\<lambda>g1. g1 \<in> set group2) group1 then Inr True
         else checkAssonance syllable1 syllable2))"

definition getLastWord :: "jstring \<Rightarrow> jstring" where
  "getLastWord line =
     (let words = split_spaces (trim line) in
      if words = [] then [] else last words)"

datatype relation = Rhyme | Assonance | Consonance | NoRel

record analysis =
  rhymes :: bool
  type :: relation

definition perfectRhymeGroups :: "(jstring \<times> jstring list) list" where
  "perfectRhymeGroups =
    [(str ''ar'', [str ''are'', str ''ar'']),
     (str ''are'', [str ''ar'', str ''are'']),
     (str ''igh'', [str ''y'', str ''igh'', str ''ie'', str ''ky'', str ''i'']),
     (str ''y'', [str ''igh'', str ''y'', str ''ie'', str ''ky'', str ''i'']),
     (str ''ie'', [str ''igh'', str ''y'', str ''ie'', str ''ky'', str ''i'']),
     (str ''ky'', [str ''igh'', str ''y'', str ''ie'', str ''ky'', str ''i'']),
     (str ''i'', [str ''igh'', str ''y'', str ''ie'', str ''ky'', str ''i'']),
     (str ''ow'', [str ''ou'', str ''ow'']),
     (str ''ou'', [str ''ow'', str ''ou'']),
     (str ''ing'', [str ''ing'']),
     (str ''ight'', [str ''ite'', str ''ight'']),
     (str ''ite'', [str ''ight'', str ''ite''])]"

definition isPerfectRhyme :: "jsval \<Rightarrow> jsval \<Rightarrow> bool" where
  "isPerfectRhyme syllable1 syllable2 =
     (if syllable1 = syllable2 then True
      else
        (let group1 = getRhymeGroup perfectRhymeGroups syllable1;
             group2 = getRhymeGroup perfectRhymeGroups syllable2 in
         list_ex (\<lambda>g1. g1 \<in> set group2) group1))"

definition assonanceGroups :: "(jstring \<times> jstring list) list" where
  "assonanceGroups =
    [(str ''tro'', [str ''nto'', str ''ato'', str ''eto'', str ''oto'']),
     (str ''nto'', [str ''tro'', str ''ato'', str ''eto'', str ''oto'']),
     (str ''ato'', [str ''tro'', str ''nto'', str ''eto'', str ''oto'']),
     (str ''eto'', [str ''tro'', str ''nto'', str ''ato'', str ''oto'']),
     (str ''oto'', [str ''tro'', str ''nto'', str ''ato'', str ''eto'']),
     (str ''ico'', [str ''ito'']),
     (str ''ito'', [str ''ico'']),
     (str ''ic'', [str ''kee'']),
     (str ''kee'', [str ''ic''])]"

text \<open>\<open>assonanceGroups[syllable] || []\<close>.\<close>

fun getAssonanceGroup :: "jsval \<Rightarrow> jsval list" where
  "getAssonanceGroup (JStr s) =
     (case map_of assonanceGroups s of Some g \<Rightarrow> map JStr g | None \<Rightarrow> [])"
| "getAssonanceGroup (JObj obj) = []"

definition isAssonance :: "jsval \<Rightarrow> jsval \<Rightarrow> bool" where
  "isAssonance syllable1 syllable2 =
     (let group1 = getAssonanceGroup syllable1;
          group2 = getAssonanceGroup syllable2 in
      syllable2 \<in> set group1 \<or> syllable1 \<in> set group2)"

text \<open>The match of \<open>/[bcdfghjklmnpqrstvwxyz]+$/\<close>: the longest run of consonants at the end.\<close>

fun getEndingConsonants :: "jsval \<Rightarrow> error + jstring" where
  "getEndingConsonants (JStr s) = Inr (rev (takeWhile (\<lambda>c. c \<in> set consonants_y) (rev s)))"
| "getEndingConsonants (JObj obj) = Inl TypeError"

definition isConsonance :: "jsval \<Rightarrow> jsval \<Rightarrow> error + bool" where
  "isConsonance syllable1 syllable2 =
     (case getEndingConsonants syllable1 of
        Inl e \<Rightarrow> Inl e
      | Inr consonants1 \<Rightarrow>
          (case getEndingConsonants syllable2 of
             Inl e \<Rightarrow> Inl e
           | Inr consonants2 \<Rightarrow> Inr (consonants1 \<noteq> [] \<and> consonants1 = consonants2)))"

definition analyzeRhyme :: "jstring \<Rightarrow> jstring \<Rightarrow> error + analysis" where
  "analyzeRhyme word1 word2 =
     (let syllable1 = extractRhymingSyllable word1;
          syllable2 = extractRhymingSyllable word2 in
      if \<not> truthy syllable1 \<or> \<not> truthy syllable2 then Inr \<lparr>rhymes = False, type = NoRel\<rparr>
      else if isPerfectRhyme syllable1 syllable2 then Inr \<lparr>rhymes = True, type = Rhyme\<rparr>
      else if isAssonance syllable1 syllable2 then Inr \<lparr>rhymes = True, type = Assonance\<rparr>
      else
        (case isConsonance syllable1 syllable2 of
           Inl e \<Rightarrow> Inl e
         | Inr c \<Rightarrow>
             if c then Inr \<lparr>rhymes = True, type = Consonance\<rparr>
             else Inr \<lparr>rhymes = False, type = NoRel\<rparr>))"

section \<open>Syllable counting\<close>

text \<open>The accented vowels \<open>\<open>a\<close>\<close>-grave to \<open>u\<close>-grave and \<open>a\<close>-acute to \<open>u\<close>-acute, as the source lists them.\<close>

definition accented :: "code_unit list" where
  "accented = [224, 232, 236, 242, 249, 225, 233, 237, 243, 250]"

definition syllableSpecialCases :: "(jstring \<times> int) list" where
  "syllableSpecialCases =
    [(str ''the'', 1), (str ''a'', 1), (str ''an'', 1), (str ''and'', 1), (str ''or'', 1),
     (str ''but'', 1), (str ''in'', 1), (str ''on'', 1), (str ''at'', 1), (str ''to'', 1),
     (str ''for'', 1), (str ''of'', 1), (str ''with'', 1), (str ''by'', 1), (str ''from'', 1),
     (str ''up'', 1), (str ''about'', 2), (str ''into'', 2), (str ''over'', 2), (str ''after'', 2),
     (str ''through'', 1), (str ''during'', 2), (str ''before'', 2), (str ''under'', 2),
     (str ''between'', 2), (str ''among'', 2),
     (str ''il'', 1), (str ''la'', 1), (str ''le'', 1), (str ''lo'', 1), (str ''gli'', 1),
     (str ''i'', 1), (str ''un'', 1), (str ''una'', 1), (str ''del'', 1), (str ''della'', 2),
     (str ''delle'', 2), (str ''nel'', 1), (str ''nella'', 2), (str ''nelle'', 2),
     (str ''con'', 1), (str ''per'', 1), (str ''che'', 1), (str ''non'', 1),
     (str ''pi'' @ [249], 1), (str ''sono'', 2), (str ''quando'', 2), (str ''come'', 2),
     (str ''dove'', 2), (str ''perch'' @ [233], 2), (str ''anche'', 2),
     (str ''zion'', 2), (str ''scritte'', 2)]"

text \<open>
  \<open>specialCases[cleanWord]\<close> in \<open>countWordSyllables\<close>: a number of the table, else an
  inherited property (\<open>Inl\<close>).
\<close>

definition syllableSpecialCase :: "jstring \<Rightarrow> (inherited + int) option" where
  "syllableSpecialCase k =
     (case map_of syllableSpecialCases k of
        Some n \<Rightarrow> Some (Inr n)
      | None \<Rightarrow> map_option Inl (inherited_property k))"

definition vowels :: "code_unit list" where
  "vowels = str ''aeiou'' @ accented"

text \<open>The list of words of the regular expression \<open>englishPatterns\<close>, \<open>/^(the|are|...)$/\<close>.\<close>

definition englishPatterns :: "jstring list" where
  "englishPatterns =
    [str ''the'', str ''are'', str ''here'', str ''there'', str ''where'', str ''more'',
     str ''before'', str ''while'', str ''once'', str ''some'', str ''come'', str ''home'',
     str ''make'', str ''take'', str ''give'', str ''have'', str ''love'', str ''move'',
     str ''dance'', str ''change'', str ''large'', str ''white'', str ''little'', str ''simple'',
     str ''whole'', str ''style'', str ''smile'', str ''write'', str ''quite'', str ''close'',
     str ''chose'', str ''hope'', str ''note'', str ''vote'', str ''place'', str ''face'',
     str ''space'', str ''race'', str ''nice'', str ''price'', str ''twice'', str ''size'',
     str ''wise'', str ''rise'', str ''prize'', str ''lose'', str ''use'', str ''house'',
     str ''mouse'', str ''course'', str ''nurse'', str ''horse'', str ''force'', str ''source'',
     str ''since'', str ''prince'', str ''fence'', str ''dance'', str ''chance'', str ''france'',
     str ''sense'', str ''dense'', str ''tense'', str ''intense'', str ''these'',
     str ''complete'', str ''compete'', str ''delete'', str ''concrete'', str ''discrete'',
     str ''extreme'', str ''supreme'', str ''scene'', str ''theme'', str ''scheme'',
     str ''gene'', str ''serene'', str ''obscene'', str ''machine'', str ''marine'',
     str ''routine'', str ''antine'', str ''antine'', str ''genuine'', str ''combine'',
     str ''define'', str ''refine'', str ''decline'', str ''outline'', str ''online'',
     str ''baseline'', str ''headline'', str ''sideline'', str ''timeline'', str ''pipeline'',
     str ''gasoline'', str ''valentine'', str ''discipline'', str ''medicine'', str ''examine'',
     str ''determine'', str ''imagine'', str ''engine'', str ''magazine'', str ''cuisine'',
     str ''vaccine'', str ''caffeine'', str ''nicotine'', str ''routine'', str ''doctrine'',
     str ''fortune'', str ''torture'', str ''future'', str ''nature'', str ''mature'',
     str ''picture'', str ''culture'', str ''capture'', str ''measure'', str ''pleasure'',
     str ''treasure'', str ''pressure'', str ''exposure'', str ''closure'', str ''leisure'',
     str ''seizure'', str ''failure'', str ''secure'', str ''pure'', str ''sure'', str ''cure'',
     str ''lure'', str ''endure'', str ''obscure'', str ''procedure'', str ''literature'',
     str ''temperature'', str ''signature'', str ''adventure'', str ''departure'',
     str ''furniture'', str ''agriculture'', str ''manufacture'', str ''architecture'',
     str ''legislature'', str ''expenditure'', str ''miniature'', str ''caricature'']"

text \<open>\<open>s.includes(p)\<close>: \<open>p\<close> occurs somewhere in \<open>s\<close>.\<close>

definition includes_str :: "jstring \<Rightarrow> jstring \<Rightarrow> bool" where
  "includes_str s p \<longleftrightarrow> list_ex (\<lambda>i. take (length p) (drop i s) = p) [0..<Suc (length s)]"

text \<open>
  One round of the loop over the code units of the cleaned word; the state is
  \<open>(syllableCount, previousWasVowel)\<close>.
\<close>

definition vowel_step :: "jstring \<Rightarrow> nat \<Rightarrow> int \<times> bool \<Rightarrow> int \<times> bool" where
  "vowel_step cw i = (\<lambda>(syllableCount, previousWasVowel).
     (let ch = cw ! i; isVowel = (ch \<in> set vowels) in
      (if isVowel \<and> \<not> previousWasVowel then syllableCount + 1
       else if isVowel \<and> previousWasVowel then
         (let prevChar = cw ! (i - 1) in
          if (prevChar = 105 \<and> ch \<in> set (str ''aeo'')) \<or>
             (prevChar = 117 \<and> ch \<in> set (str ''aei'')) \<or>
             (prevChar = 97 \<and> ch = 105) \<or>
             (prevChar = 101 \<and> ch = 105) \<or>
             (prevChar = 111 \<and> ch = 105)
          then syllableCount + 1 else syllableCount)
       else syllableCount,
       isVowel)))"

text \<open>The count of \<open>countWordSyllables\<close> for a cleaned word that is no special case.\<close>

definition vowelGroups :: "jstring \<Rightarrow> int" where
  "vowelGroups cw =
     (let syllableCount = fst (fold (vowel_step cw) [0..<length cw] (0, False));
          syllableCount =
            (if endsWith cw (str ''e'') \<and> 1 < syllableCount then
               (if 2 \<le> length cw \<and> cw ! (length cw - 2) \<notin> set vowels \<and> cw \<in> set englishPatterns
                then syllableCount - 1 else syllableCount)
             else syllableCount);
          syllableCount =
            (if endsWith cw (str ''ed'') \<and> 1 < syllableCount then
               (let beforeEd = (if 3 \<le> length cw then Some (cw ! (length cw - 3)) else None) in
                if beforeEd \<noteq> Some 116 \<and> beforeEd \<noteq> Some 100
                then syllableCount - 1 else syllableCount)
             else syllableCount);
          syllableCount =
            (if includes_str cw (str ''qu'') \<or> includes_str cw (str ''gu'')
             then max 1 syllableCount else syllableCount)
      in max 1 syllableCount)"

text \<open>\<open>word.toLowerCase().replace(/[^a-z]/g, '')\<close>: the letters \<open>a\<close> to \<open>z\<close> of the word.\<close>

definition letters :: "jstring \<Rightarrow> jstring" where
  "letters word = filter (\<lambda>c. 97 \<le> c \<and> c \<le> 122) (toLowerCase word)"

text \<open>
  The result is a number, or (\<open>Inl\<close>) the inherited object that the lookup of the word
  \<open>constructor\<close> returns.
\<close>

definition countWordSyllables :: "jstring \<Rightarrow> inherited + int" where
  "countWordSyllables word =
     (if word = [] then Inr 0
      else
        (let cw = letters word in
         if cw = [] then Inr 0
         else
           (case syllableSpecialCase cw of
              Some (Inl obj) \<Rightarrow> Inl obj
            | Some (Inr n) \<Rightarrow> if n \<noteq> 0 then Inr n else Inr (vowelGroups cw)
            | None \<Rightarrow> Inr (vowelGroups cw))))"

definition isVowel :: "code_unit \<Rightarrow> bool" where
  "isVowel ch \<longleftrightarrow> ch \<in> set (str ''aeiouAEIOU'')"

definition sinalefeClean :: "jstring \<Rightarrow> jstring" where
  "sinalefeClean w =
     filter (\<lambda>c. isWordChar c \<or> c = 39 \<or> c \<in> set accented) (toLowerCase w)"

text \<open>The condition under which the pair of words at \<open>i\<close> and \<open>i + 1\<close> counts one elision.\<close>

definition elides :: "jstring \<Rightarrow> jstring \<Rightarrow> bool" where
  "elides currentWord nextWord \<longleftrightarrow>
     currentWord \<noteq> [] \<and> nextWord \<noteq> [] \<and>
     (let lastChar = last currentWord; firstChar = hd nextWord in
      isVowel lastChar \<and> isVowel firstChar \<and>
      ((lastChar = 105 \<or> lastChar = 117 \<or> firstChar = 105 \<or> firstChar = 117) \<or>
       lastChar = firstChar \<or>
       (list_ex (\<lambda>p. take (Suc (length p)) currentWord = p @ [39])
          [str ''l'', str ''d'', str ''c'', str ''n'', str ''s'', str ''qu'', str ''bell''] \<or>
        list_ex (endsWith currentWord)
          [str ''che'', str ''come'', str ''dove'', str ''non'', str ''con'', str ''per'']) \<or>
       (endsWith currentWord (str ''o'') \<and> firstChar = 97) \<or>
       (endsWith currentWord (str ''a'') \<and> (firstChar = 105 \<or> firstChar = 101)) \<or>
       (endsWith currentWord (str ''e'') \<and> (firstChar = 97 \<or> firstChar = 105))))"

definition countSinalefe :: "jstring list \<Rightarrow> int" where
  "countSinalefe words =
     fold (\<lambda>i elisions.
             if elides (sinalefeClean (words ! i)) (sinalefeClean (words ! (i + 1)))
             then elisions + 1 else elisions)
          [0..<length words - 1] 0"

datatype jsnumber = Number int | NaN

text \<open>
  The sum over the words.  Adding the inherited object to the total turns the total into a
  string (\<open>None\<close>); every later addition appends to that string.
\<close>

definition totalSyllables :: "jstring list \<Rightarrow> int option" where
  "totalSyllables words =
     fold (\<lambda>word tot.
             case tot of
               None \<Rightarrow> None
             | Some t \<Rightarrow> (case countWordSyllables word of Inl obj \<Rightarrow> None | Inr n \<Rightarrow> Some (t + n)))
          words (Some 0)"

definition syllableWords :: "jstring \<Rightarrow> jstring list" where
  "syllableWords text =
     (let cleanText =
            trim (map (\<lambda>c. if isWordChar c \<or> isSpace c \<or> c = 39 \<or> c \<in> set accented then c else 32)
                      (toLowerCase text))
      in filter (\<lambda>word. 0 < length word) (split_spaces cleanText))"

text \<open>
  The final subtraction turns a total that is a string into \<open>NaN\<close>, and \<open>Math.max(1, NaN)\<close>
  is \<open>NaN\<close>.
\<close>

definition countSyllables :: "jstring \<Rightarrow> jsnumber" where
  "countSyllables text =
     (if text = [] then Number 0
      else
        (let words = syllableWords text in
         if length words = 0 then Number 0
         else
           (case totalSyllables words of
              None \<Rightarrow> NaN
            | Some tot \<Rightarrow> Number (max 1 (tot - countSinalefe words)))))"

section \<open>The parser\<close>

text \<open>
  A verse.  The field \<open>rhyme_type\<close> is \<open>None\<close> for the empty string and \<open>Some r\<close> for the
  name of the relation \<open>r\<close>.
\<close>

record verse =
  index :: nat
  "text" :: jstring
  rhyme_index :: jstring
  rhyming_syllable :: jsval
  rhyme_type :: "relation option"
  syllable_count :: jsnumber

record stanza =
  stanza_index :: nat
  stanza_verses :: "verse list"
  rhyme_pattern :: jstring

text \<open>
  \<open>lyrics.split(/\n\s*\n/)\<close>.  A separator starts at the first line feed whose following
  run of white space holds another line feed, and ends with the last line feed of that run:
  \<open>after_break\<close> is given what follows a line feed and returns what follows the separator.
\<close>

definition after_break :: "jstring \<Rightarrow> jstring option" where
  "after_break s =
     (let run = takeWhile isSpace s in
      if 10 \<in> set run
      then Some (rev (takeWhile (\<lambda>c. c \<noteq> 10) (rev run)) @ dropWhile isSpace s)
      else None)"

function split_blank :: "jstring \<Rightarrow> jstring \<Rightarrow> jstring list" where
  "split_blank piece [] = [rev piece]"
| "split_blank piece (c # s) =
     (if c = 10 then
        (case after_break s of
           Some r \<Rightarrow> rev piece # split_blank [] r
         | None \<Rightarrow> split_blank (c # piece) s)
      else split_blank (c # piece) s)"
  by pat_completeness auto
termination
proof (relation "measure (\<lambda>(piece, s). length s)")
  fix piece :: jstring and c :: code_unit and s r
  assume "after_break s = Some r"
  then have r: "r = rev (takeWhile (\<lambda>c. c \<noteq> 10) (rev (takeWhile isSpace s))) @ dropWhile isSpace s"
    by (auto simp: after_break_def Let_def split: if_splits)
  have "length (takeWhile (\<lambda>c. c \<noteq> 10) (rev (takeWhile isSpace s))) \<le> length (takeWhile isSpace s)"
    by (metis length_rev length_takeWhile_le)
  moreover have "length (takeWhile isSpace s) + length (dropWhile isSpace s) = length s"
    by (metis length_append takeWhile_dropWhile_id)
  ultimately have "length r \<le> length s"
    using r by simp
  then show "(([], r), (piece, c # s)) \<in> measure (\<lambda>(piece, s). length s)"
    by simp
qed auto

definition splitIntoStanzas :: "jstring \<Rightarrow> jstring list" where
  "splitIntoStanzas lyrics =
     filter (\<lambda>stanza. 0 < length stanza) (map trim (split_blank [] lyrics))"

definition parseStanzaIntoVerses :: "jstring \<Rightarrow> nat \<Rightarrow> verse list" where
  "parseStanzaIntoVerses stanzaText stanzaIndex =
     (let lines = filter (\<lambda>line. 0 < length line) (map trim (split_lines stanzaText)) in
      map (\<lambda>(lineIndex, line).
             \<lparr>index = lineIndex + 1,
              text = line,
              rhyme_index = [],
              rhyming_syllable = extractRhymingSyllable (getLastWord line),
              rhyme_type = None,
              syllable_count = countSyllables line\<rparr>)
          (zip [0..<length lines] lines))"

subsection \<open>Grouping the verses of a stanza\<close>

record group =
  verses :: "nat list"
  group_type :: relation

text \<open>
  The local state of \<open>determineRhymePattern\<close>: the array of verses it was given, whose
  elements it changes in place, the object \<open>rhymeGroups\<close> (an association list in the order
  in which the labels were first stored), the array \<open>rhymeIndices\<close> and the counter.
\<close>

record grouping =
  verseArray :: "verse list"
  groupTable :: "(jstring \<times> group) list"
  rhymeIndices :: "jstring list"
  currentRhymeIndex :: nat

text \<open>\<open>forEach\<close> with a body that can throw.\<close>

fun forEachM :: "('a \<Rightarrow> 's \<Rightarrow> error + 's) \<Rightarrow> 'a list \<Rightarrow> 's \<Rightarrow> error + 's" where
  "forEachM f [] s = Inr s"
| "forEachM f (x # xs) s = (case f x s of Inl e \<Rightarrow> Inl e | Inr s' \<Rightarrow> forEachM f xs s')"

text \<open>\<open>String.fromCharCode(n)\<close>: one code unit, \<open>n\<close> modulo \<open>2^16\<close>.\<close>

definition fromCharCode :: "nat \<Rightarrow> jstring" where
  "fromCharCode n = [n mod 65536]"

text \<open>
  \<open>xs[i] = v\<close> on an array: a write at or beyond the length extends the array, leaving holes,
  which \<open>join\<close> prints as the empty string.
\<close>

definition array_set :: "jstring list \<Rightarrow> nat \<Rightarrow> jstring \<Rightarrow> jstring list" where
  "array_set xs i v =
     (if i < length xs then xs[i := v] else xs @ replicate (i - length xs) [] @ [v])"

text \<open>
  The inner loop over the previous verses \<open>verses[0], ..., verses[index - 1]\<close>: the first
  \<open>i\<close> whose last word rhymes with the current one, with the analysis found there.
\<close>

fun findRhyme :: "verse list \<Rightarrow> nat \<Rightarrow> jstring \<Rightarrow> error + (nat \<times> analysis) option" where
  "findRhyme [] i currentLastWord = Inr None"
| "findRhyme (previousVerse # rest) i currentLastWord =
     (case analyzeRhyme (getLastWord (text previousVerse)) currentLastWord of
        Inl e \<Rightarrow> Inl e
      | Inr rhymeAnalysis \<Rightarrow>
          if rhymes rhymeAnalysis then Inr (Some (i, rhymeAnalysis))
          else findRhyme rest (Suc i) currentLastWord)"

text \<open>The new relation of a group of relation \<open>currentGroupType\<close> that a verse joins.\<close>

definition updateGroupType :: "relation \<Rightarrow> relation \<Rightarrow> relation" where
  "updateGroupType currentGroupType analysisType =
     (if analysisType = Rhyme then Rhyme
      else if analysisType = Assonance \<and> currentGroupType \<noteq> Rhyme then Assonance
      else if analysisType = Consonance \<and> currentGroupType = NoRel then Consonance
      else currentGroupType)"

definition processVerse :: "nat \<Rightarrow> grouping \<Rightarrow> error + grouping" where
  "processVerse idx st =
     (let verse = verseArray st ! idx in
      case findRhyme (take idx (verseArray st)) 0 (getLastWord (text verse)) of
        Inl e \<Rightarrow> Inl e
      | Inr (Some (i, rhymeAnalysis)) \<Rightarrow>
          if i < length (rhymeIndices st) then
            (let rhymeIndex = rhymeIndices st ! i in
             case map_of (groupTable st) rhymeIndex of
               None \<Rightarrow> Inl TypeError
             | Some g \<Rightarrow>
                 Inr (st\<lparr>rhymeIndices := array_set (rhymeIndices st) idx rhymeIndex,
                         verseArray := (verseArray st)[idx := verse\<lparr>rhyme_index := rhymeIndex\<rparr>],
                         groupTable :=
                           AList.update rhymeIndex
                             \<lparr>verses = verses g @ [idx],
                              group_type = updateGroupType (group_type g) (type rhymeAnalysis)\<rparr>
                             (groupTable st)\<rparr>))
          else Inl TypeError
      | Inr None \<Rightarrow>
          (let newRhymeIndex = fromCharCode (65 + currentRhymeIndex st) in
           Inr (st\<lparr>rhymeIndices := array_set (rhymeIndices st) idx newRhymeIndex,
                   verseArray := (verseArray st)[idx := verse\<lparr>rhyme_index := newRhymeIndex\<rparr>],
                   groupTable :=
                     AList.update newRhymeIndex \<lparr>verses = [idx], group_type = NoRel\<rparr>
                       (groupTable st),
                   currentRhymeIndex := currentRhymeIndex st + 1\<rparr>)))"

text \<open>The state after the loop over the verses.\<close>

definition groupVerses :: "verse list \<Rightarrow> error + grouping" where
  "groupVerses vs =
     forEachM processVerse [0..<length vs]
       \<lparr>verseArray = vs, groupTable = [], rhymeIndices = [], currentRhymeIndex = 0\<rparr>"

text \<open>
  \<open>Object.keys\<close>: the keys that are array indices come first, in ascending order, the others
  follow in the order in which they were first stored.
\<close>

definition decimal :: "jstring \<Rightarrow> nat" where
  "decimal k = foldl (\<lambda>n c. 10 * n + (c - 48)) 0 k"

definition isArrayIndex :: "jstring \<Rightarrow> bool" where
  "isArrayIndex k \<longleftrightarrow>
     k \<noteq> [] \<and> list_all (\<lambda>c. 48 \<le> c \<and> c \<le> 57) k \<and> (k = [48] \<or> hd k \<noteq> 48) \<and> decimal k < 4294967295"

definition objectKeys :: "(jstring \<times> 'v) list \<Rightarrow> jstring list" where
  "objectKeys obj =
     sort_key decimal (filter isArrayIndex (map fst obj)) @
     filter (\<lambda>k. \<not> isArrayIndex k) (map fst obj)"

definition finalType :: "group \<Rightarrow> relation option" where
  "finalType g =
     (if length (verses g) = 1 then None
      else if group_type g = NoRel then Some Rhyme
      else Some (group_type g))"

definition applyType :: "group \<Rightarrow> verse list \<Rightarrow> error + verse list" where
  "applyType g =
     forEachM (\<lambda>verseIndex vs.
                 if verseIndex < length vs
                 then Inr (vs[verseIndex := (vs ! verseIndex)\<lparr>rhyme_type := finalType g\<rparr>])
                 else Inl TypeError)
              (verses g)"

definition finalizeTypes :: "grouping \<Rightarrow> error + verse list" where
  "finalizeTypes st =
     forEachM (\<lambda>rhymeIndex vs.
                 case map_of (groupTable st) rhymeIndex of
                   None \<Rightarrow> Inl TypeError
                 | Some g \<Rightarrow> applyType g vs)
              (objectKeys (groupTable st)) (verseArray st)"

text \<open>The result is the array of verses as the function leaves it, and the pattern.\<close>

definition determineRhymePattern :: "verse list \<Rightarrow> error + verse list \<times> jstring" where
  "determineRhymePattern vs =
     (if length vs = 0 then Inr (vs, [])
      else
        (case groupVerses vs of
           Inl e \<Rightarrow> Inl e
         | Inr st \<Rightarrow>
             (case finalizeTypes st of
                Inl e \<Rightarrow> Inl e
              | Inr vs' \<Rightarrow> Inr (vs', concat (rhymeIndices st)))))"

definition parseLyrics :: "jstring \<Rightarrow> error + stanza list" where
  "parseLyrics lyrics =
     (let stanzas = splitIntoStanzas lyrics in
      forEachM (\<lambda>(stanzaIndex, stanzaText) parsedStanzas.
                  case determineRhymePattern (parseStanzaIntoVerses stanzaText stanzaIndex) of
                    Inl e \<Rightarrow> Inl e
                  | Inr (vs, rhymePattern) \<Rightarrow>
                      Inr (parsedStanzas @
                           [\<lparr>stanza_index = stanzaIndex + 1,
                             stanza_verses = vs,
                             rhyme_pattern = rhymePattern\<rparr>]))
               (zip [0..<length stanzas] stanzas) [])"

section \<open>Notions used to state the properties\<close>

text \<open>The rhyme key of the last word of a verse.\<close>

definition lastKey :: "verse \<Rightarrow> jsval" where
  "lastKey v = extractRhymingSyllable (getLastWord (text v))"

text \<open>
  The typed classification finds a relation between two keys: both keys are non-empty and they
  pass the perfect-rhyme test, the assonance-table test or the consonance test.
\<close>

definition typedRelated :: "jsval \<Rightarrow> jsval \<Rightarrow> bool" where
  "typedRelated k1 k2 \<longleftrightarrow>
     truthy k1 \<and> truthy k2 \<and>
     (isPerfectRhyme k1 k2 \<or> isAssonance k1 k2 \<or> isConsonance k1 k2 = Inr True)"

text \<open>Verse \<open>k\<close> and verse \<open>j\<close> of a stanza are judged to rhyme.\<close>

definition judged :: "verse list \<Rightarrow> nat \<Rightarrow> nat \<Rightarrow> bool" where
  "judged vs k j = typedRelated (lastKey (vs ! k)) (lastKey (vs ! j))"

text \<open>The first verse before verse \<open>j\<close> that is judged to rhyme with it.\<close>

definition firstJudged :: "verse list \<Rightarrow> nat \<Rightarrow> nat option" where
  "firstJudged vs j = find (\<lambda>k. judged vs k j) [0..<j]"

text \<open>The number of verses before verse \<open>j\<close> that rhyme with none of their predecessors.\<close>

definition openedBefore :: "verse list \<Rightarrow> nat \<Rightarrow> nat" where
  "openedBefore vs j = length (filter (\<lambda>i. firstJudged vs i = None) [0..<j])"

text \<open>
  The lower-cased text holds a word character, an apostrophe or an accented vowel: what the
  syllable counter keeps of a line apart from white space.
\<close>

definition hasSyllableChar :: "jstring \<Rightarrow> bool" where
  "hasSyllableChar line =
     list_ex (\<lambda>c. isWordChar c \<or> c = 39 \<or> c \<in> set accented) (toLowerCase line)"


text \<open>The input of the usage example: four lines separated by line feeds.\<close>

definition roses :: jstring where
  "roses = str ''Roses are red'' @ [10] @ str ''Violets are blue'' @ [10] @
           str ''Sugar is sweet'' @ [10] @ str ''And so are you''"

text \<open>A verse as \<open>parseStanzaIntoVerses\<close> makes it from a line.\<close>

definition verseOf :: "nat \<Rightarrow> jstring \<Rightarrow> verse" where
  "verseOf i line =
     \<lparr>index = i, text = line, rhyme_index = [],
      rhyming_syllable = extractRhymingSyllable (getLastWord line),
      rhyme_type = None, syllable_count = countSyllables line\<rparr>"

text \<open>Stanzas of one-word lines used as examples.\<close>

definition musicVerses :: "verse list" where
  "musicVerses =
     [verseOf 1 (str ''music''), verseOf 2 (str ''maniac''), verseOf 3 (str ''milwaukee'')]"

definition catVerses :: "verse list" where
  "catVerses = [verseOf 1 (str ''cat''), verseOf 2 (str ''dog''), verseOf 3 (str ''hat'')]"

definition redVerses :: "verse list" where
  "redVerses = [verseOf 1 (str ''red''), verseOf 2 (str ''sweet'')]"

definition punctVerses :: "verse list" where
  "punctVerses = [verseOf 1 (str ''!''), verseOf 2 (str ''?'')]"

text \<open>A verse with its label and its final relation filled in.\<close>

definition labelledVerse :: "nat \<Rightarrow> jstring \<Rightarrow> jstring \<Rightarrow> relation option \<Rightarrow> verse" where
  "labelledVerse i line label r = (verseOf i line)\<lparr>rhyme_index := label, rhyme_type := r\<rparr>"

text \<open>The state of the loop after the three verses of \<open>catVerses\<close>.\<close>

definition catGrouping :: grouping where
  "catGrouping =
     \<lparr>verseArray = [labelledVerse 1 (str ''cat'') (str ''A'') None,
                    labelledVerse 2 (str ''dog'') (str ''B'') None,
                    labelledVerse 3 (str ''hat'') (str ''A'') None],
      groupTable = [(str ''A'', \<lparr>verses = [0, 2], group_type = Rhyme\<rparr>),
                    (str ''B'', \<lparr>verses = [1], group_type = NoRel\<rparr>)],
      rhymeIndices = [str ''A'', str ''B'', str ''A''],
      currentRhymeIndex = 2\<rparr>"

subsection \<open>Invariants of the loop over the verses\<close>

definition initial :: "verse list \<Rightarrow> grouping" where
  "initial vs = \<lparr>verseArray = vs, groupTable = [], rhymeIndices = [], currentRhymeIndex = 0\<rparr>"

text \<open>
  After \<open>m\<close> verses: the texts are untouched, \<open>rhymeIndices\<close> has \<open>m\<close> labels of one code
  unit each, which the verses carry too, every label is the label of the first earlier verse
  judged to rhyme, or else the next unused letter, and the counter is the number of groups
  opened.
\<close>

definition labelled :: "verse list \<Rightarrow> nat \<Rightarrow> grouping \<Rightarrow> bool" where
  "labelled vs m st \<longleftrightarrow>
     length (verseArray st) = length vs \<and>
     (\<forall>i<length vs. text (verseArray st ! i) = text (vs ! i)) \<and>
     length (rhymeIndices st) = m \<and>
     (\<forall>i<m. rhyme_index (verseArray st ! i) = rhymeIndices st ! i) \<and>
     (\<forall>i<m. rhymeIndices st ! i =
        (case firstJudged vs i of
           Some k \<Rightarrow> rhymeIndices st ! k
         | None \<Rightarrow> fromCharCode (65 + openedBefore vs i))) \<and>
     (\<forall>i<m. length (rhymeIndices st ! i) = 1) \<and>
     currentRhymeIndex st = openedBefore vs m"

text \<open>
  After \<open>m\<close> verses: the labels stored in \<open>rhymeGroups\<close> are distinct, every label in use
  has a group, and every group is non-empty, holds verses already seen that carry its label, and
  has a relation other than \<open>none\<close> once it has two members.
\<close>

definition grouped :: "nat \<Rightarrow> grouping \<Rightarrow> bool" where
  "grouped m st \<longleftrightarrow>
     distinct (map fst (groupTable st)) \<and>
     (\<forall>i<m. rhymeIndices st ! i \<in> dom (map_of (groupTable st))) \<and>
     (\<forall>L g. map_of (groupTable st) L = Some g \<longrightarrow>
        verses g \<noteq> [] \<and> set (verses g) \<subseteq> {..<m} \<and>
        (2 \<le> length (verses g) \<longrightarrow> group_type g \<noteq> NoRel) \<and>
        (\<forall>v\<in>set (verses g). rhymeIndices st ! v = L))"

text \<open>The body of the loop of \<open>finalizeTypes\<close> over the labels of a table.\<close>

definition typeStep :: "(jstring \<times> group) list \<Rightarrow> jstring \<Rightarrow> verse list \<Rightarrow> error + verse list" where
  "typeStep T = (\<lambda>rhymeIndex vs.
                 case map_of T rhymeIndex of
                   None \<Rightarrow> Inl TypeError
                 | Some g \<Rightarrow> applyType g vs)"

section \<open>Symmetry of the two rhyme tests\<close>

lemma list_ex_mem_sym: "list_ex (\<lambda>g. g \<in> set ys) xs = list_ex (\<lambda>g. g \<in> set xs) ys"
  by (auto simp: list_ex_iff)

lemma similarVowels_sym: "(v2 \<in> set (similarVowels v1)) = (v1 \<in> set (similarVowels v2))"
  by (auto simp: similarVowels_def vowelSimilarity_def str_def split: if_splits)

lemma checkAssonance_sym: "checkAssonance a b = checkAssonance b a"
  by (cases a; cases b) (auto simp: checkAssonance_def similarVowels_sym)

lemma isPerfectRhyme_sym: "isPerfectRhyme a b = isPerfectRhyme b a"
  by (auto simp: isPerfectRhyme_def Let_def list_ex_mem_sym)

lemma isAssonance_sym: "isAssonance a b = isAssonance b a"
  by (auto simp: isAssonance_def Let_def)

lemma isConsonance_sym: "isConsonance a b = isConsonance b a"
  by (cases a; cases b) (auto simp: isConsonance_def)

text \<open>
  Claim C7.  Both rhyme tests are symmetric in their two words: the broad boolean test
  \<open>wordsRhyme\<close> and the typed classification \<open>analyzeRhyme\<close> give the same result, value
  or error, on \<open>(a, b)\<close> and on \<open>(b, a)\<close>.
\<close>

theorem rhyme_tests_symmetric:
  "wordsRhyme a b = wordsRhyme b a \<and> analyzeRhyme a b = analyzeRhyme b a"
proof
  show "wordsRhyme a b = wordsRhyme b a"
    using list_ex_mem_sym [of "getRhymeGroup rhymeGroups (extractRhymingSyllable b)" "getRhymeGroup rhymeGroups (extractRhymingSyllable a)"]
      checkAssonance_sym [of "extractRhymingSyllable a" "extractRhymingSyllable b"]
    by (simp add: wordsRhyme_def Let_def eq_commute [of "extractRhymingSyllable a"])
  show "analyzeRhyme a b = analyzeRhyme b a"
    using isPerfectRhyme_sym [of "extractRhymingSyllable a" "extractRhymingSyllable b"]
      isAssonance_sym [of "extractRhymingSyllable a" "extractRhymingSyllable b"]
      isConsonance_sym [of "extractRhymingSyllable a" "extractRhymingSyllable b"]
    by (auto simp: analyzeRhyme_def Let_def)
qed

section \<open>The grouping loop\<close>

lemma forEachM_append:
  "forEachM f (xs @ ys) s = (case forEachM f xs s of Inl e \<Rightarrow> Inl e | Inr s' \<Rightarrow> forEachM f ys s')"
  by (induction xs arbitrary: s) (auto split: sum.splits)

lemma analyzeRhyme_Inr:
  assumes "analyzeRhyme w1 w2 = Inr a"
  shows "rhymes a = typedRelated (extractRhymingSyllable w1) (extractRhymingSyllable w2)"
    and "rhymes a \<Longrightarrow> type a \<noteq> NoRel"
  using assms
  by (auto simp: analyzeRhyme_def typedRelated_def Let_def split: if_splits sum.splits)

lemma analyzeRhyme_Inl:
  "analyzeRhyme w1 w2 = Inl e \<Longrightarrow> \<not> typedRelated (extractRhymingSyllable w1) (extractRhymingSyllable w2)"
  by (auto simp: analyzeRhyme_def typedRelated_def Let_def split: if_splits sum.splits)

lemma find_upt_Some: "find P [0..<m] = Some k \<longleftrightarrow> k < m \<and> P k \<and> (\<forall>i<k. \<not> P i)"
  by (auto simp: find_Some_iff)

lemma find_upt_None: "find P [0..<m] = None \<longleftrightarrow> (\<forall>i<m. \<not> P i)"
  by (auto simp: find_None_iff)

lemma findRhyme_None:
  "findRhyme xs i cur = Inr None \<Longrightarrow> k < length xs \<Longrightarrow>
   \<not> typedRelated (lastKey (xs ! k)) (extractRhymingSyllable cur)"
proof (induction xs arbitrary: i k)
  case Nil
  then show ?case by simp
next
  case (Cons x xs)
  from Cons.prems(1) obtain a where a: "analyzeRhyme (getLastWord (text x)) cur = Inr a" "\<not> rhymes a"
    and rest: "findRhyme xs (Suc i) cur = Inr None"
    by (auto split: sum.splits if_splits)
  show ?case
  proof (cases k)
    case 0
    then show ?thesis using a analyzeRhyme_Inr(1) [OF a(1)] by (simp add: lastKey_def)
  next
    case (Suc k')
    then show ?thesis using Cons.IH [OF rest, of k'] Cons.prems(2) by simp
  qed
qed

lemma findRhyme_Some:
  "findRhyme xs i cur = Inr (Some (k, a)) \<Longrightarrow>
   i \<le> k \<and> k - i < length xs \<and>
   typedRelated (lastKey (xs ! (k - i))) (extractRhymingSyllable cur) \<and>
   (\<forall>k'<k - i. \<not> typedRelated (lastKey (xs ! k')) (extractRhymingSyllable cur)) \<and>
   type a \<noteq> NoRel"
proof (induction xs arbitrary: i)
  case Nil
  then show ?case by simp
next
  case (Cons x xs)
  from Cons.prems obtain b where b: "analyzeRhyme (getLastWord (text x)) cur = Inr b"
    by (auto split: sum.splits)
  show ?case
  proof (cases "rhymes b")
    case True
    then have "k = i" "a = b" using Cons.prems b by auto
    then show ?thesis
      using True analyzeRhyme_Inr [OF b] by (simp add: lastKey_def)
  next
    case False
    then have rest: "findRhyme xs (Suc i) cur = Inr (Some (k, a))"
      using Cons.prems b by simp
    from Cons.IH [OF rest] have ih: "Suc i \<le> k" "k - Suc i < length xs"
      "typedRelated (lastKey (xs ! (k - Suc i))) (extractRhymingSyllable cur)"
      "\<forall>k'<k - Suc i. \<not> typedRelated (lastKey (xs ! k')) (extractRhymingSyllable cur)"
      "type a \<noteq> NoRel"
      by auto
    have nz: "k - i = Suc (k - Suc i)" using ih(1) by simp
    have "\<not> typedRelated (lastKey x) (extractRhymingSyllable cur)"
      using False analyzeRhyme_Inr(1) [OF b] by (simp add: lastKey_def)
    then have "\<forall>k'<k - i. \<not> typedRelated (lastKey ((x # xs) ! k')) (extractRhymingSyllable cur)"
      using ih(4) nz by (auto simp: nth_Cons split: nat.splits)
    then show ?thesis
      using ih nz by auto
  qed
qed


lemma processVerse_cases:
  assumes "processVerse m st = Inr st'"
  obtains (join) k a g where
      "findRhyme (take m (verseArray st)) 0 (getLastWord (text (verseArray st ! m))) = Inr (Some (k, a))"
      "k < length (rhymeIndices st)"
      "map_of (groupTable st) (rhymeIndices st ! k) = Some g"
      "st' = st\<lparr>rhymeIndices := array_set (rhymeIndices st) m (rhymeIndices st ! k),
                verseArray := (verseArray st)[m := (verseArray st ! m)\<lparr>rhyme_index := rhymeIndices st ! k\<rparr>],
                groupTable := AList.update (rhymeIndices st ! k)
                    \<lparr>verses = verses g @ [m],
                     group_type = updateGroupType (group_type g) (type a)\<rparr> (groupTable st)\<rparr>"
  | (new)
      "findRhyme (take m (verseArray st)) 0 (getLastWord (text (verseArray st ! m))) = Inr None"
      "st' = st\<lparr>rhymeIndices := array_set (rhymeIndices st) m (fromCharCode (65 + currentRhymeIndex st)),
                verseArray := (verseArray st)[m := (verseArray st ! m)\<lparr>rhyme_index := fromCharCode (65 + currentRhymeIndex st)\<rparr>],
                groupTable := AList.update (fromCharCode (65 + currentRhymeIndex st))
                    \<lparr>verses = [m], group_type = NoRel\<rparr> (groupTable st),
                currentRhymeIndex := currentRhymeIndex st + 1\<rparr>"
  using assms
  by (auto simp: processVerse_def Let_def split: sum.splits option.splits if_splits prod.splits)

lemma scan_firstJudged:
  assumes len: "length va = length vs" and tx: "\<forall>i<length vs. text (va ! i) = text (vs ! i)"
    and m: "m < length vs"
  shows "findRhyme (take m va) 0 (getLastWord (text (va ! m))) = Inr None \<Longrightarrow> firstJudged vs m = None"
    and "findRhyme (take m va) 0 (getLastWord (text (va ! m))) = Inr (Some (k, a)) \<Longrightarrow>
         firstJudged vs m = Some k \<and> k < m \<and> type a \<noteq> NoRel"
proof -
  have key: "\<And>i. i < length vs \<Longrightarrow> lastKey (va ! i) = lastKey (vs ! i)"
    using tx by (simp add: lastKey_def)
  have cur: "extractRhymingSyllable (getLastWord (text (va ! m))) = lastKey (vs ! m)"
    using tx m by (simp add: lastKey_def)
  have lt: "length (take m va) = m" using len m by simp
  {
    assume "findRhyme (take m va) 0 (getLastWord (text (va ! m))) = Inr None"
    then have "\<forall>k<m. \<not> typedRelated (lastKey (take m va ! k)) (lastKey (vs ! m))"
      using findRhyme_None [of "take m va" 0 "getLastWord (text (va ! m))"] lt cur by auto
    then have "\<forall>k<m. \<not> judged vs k m"
      using key m by (simp add: judged_def)
    then show "firstJudged vs m = None"
      by (simp add: firstJudged_def find_upt_None)
  }
  {
    assume "findRhyme (take m va) 0 (getLastWord (text (va ! m))) = Inr (Some (k, a))"
    from findRhyme_Some [OF this] have
      k: "k < m" and rel: "typedRelated (lastKey (take m va ! k)) (lastKey (vs ! m))"
      and least: "\<forall>k'<k. \<not> typedRelated (lastKey (take m va ! k')) (lastKey (vs ! m))"
      and ty: "type a \<noteq> NoRel"
      using lt cur by auto
    have "judged vs k m" using rel k key m by (simp add: judged_def)
    moreover have "\<forall>k'<k. \<not> judged vs k' m" using least k key m by (simp add: judged_def)
    ultimately show "firstJudged vs m = Some k \<and> k < m \<and> type a \<noteq> NoRel"
      using k ty by (simp add: firstJudged_def find_upt_Some)
  }
qed

lemma openedBefore_Suc:
  "openedBefore vs (Suc m) = openedBefore vs m + (if firstJudged vs m = None then 1 else 0)"
  by (simp add: openedBefore_def)

lemma labelled_extend:
  assumes inv: "labelled vs m st" and m: "m < length vs"
    and L: "L = (case firstJudged vs m of Some k \<Rightarrow> rhymeIndices st ! k
                 | None \<Rightarrow> fromCharCode (65 + openedBefore vs m))"
    and ri: "rhymeIndices st' = rhymeIndices st @ [L]"
    and va: "verseArray st' = (verseArray st)[m := (verseArray st ! m)\<lparr>rhyme_index := L\<rparr>]"
    and cr: "currentRhymeIndex st' = openedBefore vs (Suc m)"
  shows "labelled vs (Suc m) st'"
proof -
  from inv have len: "length (verseArray st) = length vs"
    and tx: "\<forall>i<length vs. text (verseArray st ! i) = text (vs ! i)"
    and lri: "length (rhymeIndices st) = m"
    and vri: "\<forall>i<m. rhyme_index (verseArray st ! i) = rhymeIndices st ! i"
    and lab: "\<forall>i<m. rhymeIndices st ! i =
        (case firstJudged vs i of Some k \<Rightarrow> rhymeIndices st ! k
         | None \<Rightarrow> fromCharCode (65 + openedBefore vs i))"
    and one: "\<forall>i<m. length (rhymeIndices st ! i) = 1"
    by (auto simp: labelled_def)
  have fj: "\<And>i k. firstJudged vs i = Some k \<Longrightarrow> k < i"
    by (simp add: firstJudged_def find_upt_Some)
  have old: "\<And>i. i < m \<Longrightarrow> rhymeIndices st' ! i = rhymeIndices st ! i"
    using lri by (simp add: ri nth_append)
  have new: "rhymeIndices st' ! m = L"
    using lri by (simp add: ri nth_append)
  have L1: "length L = 1"
  proof (cases "firstJudged vs m")
    case None
    then show ?thesis using L by (simp add: fromCharCode_def)
  next
    case (Some k)
    then show ?thesis using L one fj [OF Some] by simp
  qed
  have c1: "length (verseArray st') = length vs"
    using len by (simp add: va)
  have c2: "\<forall>i<length vs. text (verseArray st' ! i) = text (vs ! i)"
    using tx len m by (auto simp: va nth_list_update)
  have c3: "length (rhymeIndices st') = Suc m"
    using lri by (simp add: ri)
  have c4: "\<forall>i<Suc m. rhyme_index (verseArray st' ! i) = rhymeIndices st' ! i"
  proof (intro allI impI)
    fix i assume "i < Suc m"
    then consider "i < m" | "i = m" by linarith
    then show "rhyme_index (verseArray st' ! i) = rhymeIndices st' ! i"
    proof cases
      case 1
      then show ?thesis using vri old by (simp add: va)
    next
      case 2
      then show ?thesis using new m len by (simp add: va)
    qed
  qed
  have c5: "\<forall>i<Suc m. rhymeIndices st' ! i =
        (case firstJudged vs i of Some k \<Rightarrow> rhymeIndices st' ! k
         | None \<Rightarrow> fromCharCode (65 + openedBefore vs i))"
  proof (intro allI impI)
    fix i assume "i < Suc m"
    then consider "i < m" | "i = m" by linarith
    then show "rhymeIndices st' ! i =
        (case firstJudged vs i of Some k \<Rightarrow> rhymeIndices st' ! k
         | None \<Rightarrow> fromCharCode (65 + openedBefore vs i))"
    proof cases
      case 1
      show ?thesis
      proof (cases "firstJudged vs i")
        case None
        then show ?thesis using lab 1 old by simp
      next
        case (Some k)
        then have "k < m" using fj [OF Some] 1 by simp
        then show ?thesis using lab 1 old Some by simp
      qed
    next
      case 2
      show ?thesis
      proof (cases "firstJudged vs m")
        case None
        then show ?thesis using L new 2 by simp
      next
        case (Some k)
        then have "k < m" using fj [OF Some] by simp
        then show ?thesis using L new 2 old Some by simp
      qed
    qed
  qed
  have c6: "\<forall>i<Suc m. length (rhymeIndices st' ! i) = 1"
    using one old new L1 by (auto simp: less_Suc_eq)
  show ?thesis
    unfolding labelled_def using c1 c2 c3 c4 c5 c6 cr by blast
qed

lemma labelled_step:
  assumes inv: "labelled vs m st" and m: "m < length vs" and step: "processVerse m st = Inr st'"
  shows "labelled vs (Suc m) st'"
proof -
  from inv have len: "length (verseArray st) = length vs"
    and tx: "\<forall>i<length vs. text (verseArray st ! i) = text (vs ! i)"
    and lri: "length (rhymeIndices st) = m"
    and cri: "currentRhymeIndex st = openedBefore vs m"
    by (auto simp: labelled_def)
  have as: "\<And>L. array_set (rhymeIndices st) m L = rhymeIndices st @ [L]"
    using lri by (simp add: array_set_def)
  from step show ?thesis
  proof (cases rule: processVerse_cases)
    case (join k a g)
    from scan_firstJudged(2) [OF len tx m join(1)]
    have f: "firstJudged vs m = Some k" by auto
    show ?thesis
      by (rule labelled_extend [OF inv m, where L = "rhymeIndices st ! k"])
        (simp_all add: join(4) as f cri openedBefore_Suc)
  next
    case new
    from scan_firstJudged(1) [OF len tx m new(1)]
    have f: "firstJudged vs m = None" .
    show ?thesis
      by (rule labelled_extend [OF inv m, where L = "fromCharCode (65 + currentRhymeIndex st)"])
        (simp_all add: new(2) as f cri openedBefore_Suc)
  qed
qed

lemma updateGroupType_not_none: "t \<noteq> NoRel \<Longrightarrow> updateGroupType c t \<noteq> NoRel"
  by (cases t; cases c) (simp_all add: updateGroupType_def)

lemma grouped_extend:
  assumes g: "grouped m st" and lri: "length (rhymeIndices st) = m"
    and ri: "rhymeIndices st' = rhymeIndices st @ [L]"
    and gt: "groupTable st' = AList.update L g' (groupTable st)"
    and g1: "verses g' \<noteq> []" and g2: "set (verses g') \<subseteq> {..<Suc m}"
    and g3: "2 \<le> length (verses g') \<longrightarrow> group_type g' \<noteq> NoRel"
    and g4: "\<forall>v\<in>set (verses g'). v < m \<longrightarrow> rhymeIndices st ! v = L"
  shows "grouped (Suc m) st'"
proof -
  from g have dist: "distinct (map fst (groupTable st))"
    and dom: "\<forall>i<m. rhymeIndices st ! i \<in> dom (map_of (groupTable st))"
    and grp: "\<And>K g. map_of (groupTable st) K = Some g \<Longrightarrow>
        verses g \<noteq> [] \<and> set (verses g) \<subseteq> {..<m} \<and>
        (2 \<le> length (verses g) \<longrightarrow> group_type g \<noteq> NoRel) \<and>
        (\<forall>v\<in>set (verses g). rhymeIndices st ! v = K)"
    by (auto simp: grouped_def)
  have old: "\<And>i. i < m \<Longrightarrow> rhymeIndices st' ! i = rhymeIndices st ! i"
    using lri by (simp add: ri nth_append)
  have new: "rhymeIndices st' ! m = L"
    using lri by (simp add: ri nth_append)
  have mp: "map_of (groupTable st') = (map_of (groupTable st))(L \<mapsto> g')"
    by (simp add: gt update_conv')
  have c1: "distinct (map fst (groupTable st'))"
    using dist by (simp add: gt distinct_update)
  have c2: "\<forall>i<Suc m. rhymeIndices st' ! i \<in> dom (map_of (groupTable st'))"
    using dom old new by (auto simp: mp less_Suc_eq)
  have c3: "\<forall>K g. map_of (groupTable st') K = Some g \<longrightarrow>
        verses g \<noteq> [] \<and> set (verses g) \<subseteq> {..<Suc m} \<and>
        (2 \<le> length (verses g) \<longrightarrow> group_type g \<noteq> NoRel) \<and>
        (\<forall>v\<in>set (verses g). rhymeIndices st' ! v = K)"
  proof (intro allI impI)
    fix K g assume a: "map_of (groupTable st') K = Some g"
    show "verses g \<noteq> [] \<and> set (verses g) \<subseteq> {..<Suc m} \<and>
        (2 \<le> length (verses g) \<longrightarrow> group_type g \<noteq> NoRel) \<and>
        (\<forall>v\<in>set (verses g). rhymeIndices st' ! v = K)"
    proof (cases "K = L")
      case True
      then have gg: "g = g'" using a by (simp add: mp)
      have "\<forall>v\<in>set (verses g'). rhymeIndices st' ! v = L"
      proof
        fix v assume "v \<in> set (verses g')"
        then have "v < Suc m" using g2 by auto
        then consider "v < m" | "v = m" by linarith
        then show "rhymeIndices st' ! v = L"
          using g4 old new \<open>v \<in> set (verses g')\<close> by cases auto
      qed
      then show ?thesis using g1 g2 g3 True gg by simp
    next
      case False
      then have "map_of (groupTable st) K = Some g" using a by (simp add: mp)
      from grp [OF this] show ?thesis using old by (auto simp: less_Suc_eq)
    qed
  qed
  show ?thesis
    unfolding grouped_def using c1 c2 c3 by blast
qed

lemma grouped_step:
  assumes inv: "labelled vs m st" and g: "grouped m st" and m: "m < length vs"
    and step: "processVerse m st = Inr st'"
  shows "grouped (Suc m) st'"
proof -
  from inv have len: "length (verseArray st) = length vs"
    and tx: "\<forall>i<length vs. text (verseArray st ! i) = text (vs ! i)"
    and lri: "length (rhymeIndices st) = m"
    by (auto simp: labelled_def)
  from g have grp: "\<And>K g. map_of (groupTable st) K = Some g \<Longrightarrow>
        verses g \<noteq> [] \<and> set (verses g) \<subseteq> {..<m} \<and>
        (2 \<le> length (verses g) \<longrightarrow> group_type g \<noteq> NoRel) \<and>
        (\<forall>v\<in>set (verses g). rhymeIndices st ! v = K)"
    by (auto simp: grouped_def)
  have as: "\<And>L. array_set (rhymeIndices st) m L = rhymeIndices st @ [L]"
    using lri by (simp add: array_set_def)
  from step show ?thesis
  proof (cases rule: processVerse_cases)
    case (join k a g0)
    from scan_firstJudged(2) [OF len tx m join(1)]
    have ty: "type a \<noteq> NoRel" by auto
    note g0 = grp [OF join(3)]
    show ?thesis
      by (rule grouped_extend [OF g lri, where L = "rhymeIndices st ! k"
            and g' = "\<lparr>verses = verses g0 @ [m],
                       group_type = updateGroupType (group_type g0) (type a)\<rparr>"])
        (use g0 updateGroupType_not_none [OF ty, of "group_type g0"] in
          \<open>auto simp: join(4) as less_Suc_eq\<close>)
  next
    case new
    show ?thesis
      by (rule grouped_extend [OF g lri, where L = "fromCharCode (65 + currentRhymeIndex st)"
            and g' = "\<lparr>verses = [m], group_type = NoRel\<rparr>"])
        (auto simp: new(2) as)
  qed
qed

lemma groupVerses_prefix:
  assumes "forEachM processVerse [0..<m] (initial vs) = Inr st" and "m \<le> length vs"
  shows "labelled vs m st \<and> grouped m st"
  using assms
proof (induction m arbitrary: st)
  case 0
  then show ?case
    by (auto simp: labelled_def grouped_def initial_def openedBefore_def)
next
  case (Suc m)
  from Suc.prems(1) obtain st0 where st0: "forEachM processVerse [0..<m] (initial vs) = Inr st0"
    and step: "processVerse m st0 = Inr st"
    by (auto simp: forEachM_append split: sum.splits)
  from Suc.IH [OF st0] Suc.prems(2) have "labelled vs m st0" "grouped m st0" by auto
  then show ?case
    using labelled_step [OF _ _ step] grouped_step [OF _ _ _ step] Suc.prems(2) by auto
qed

lemma groupVerses_inv:
  "groupVerses vs = Inr st \<Longrightarrow> labelled vs (length vs) st \<and> grouped (length vs) st"
  using groupVerses_prefix [of "length vs" vs st] by (simp add: groupVerses_def initial_def)

section \<open>The final relations and the pattern\<close>

lemma setType_result:
  "forEachM (\<lambda>verseIndex vs. if verseIndex < length vs
                then Inr (vs[verseIndex := (vs ! verseIndex)\<lparr>rhyme_type := t\<rparr>])
                else Inl TypeError) ixs vs = Inr vs' \<Longrightarrow>
   length vs' = length vs \<and>
   (\<forall>i<length vs. vs' ! i = (if i \<in> set ixs then (vs ! i)\<lparr>rhyme_type := t\<rparr> else vs ! i))"
proof (induction ixs arbitrary: vs)
  case Nil
  then show ?case by simp
next
  case (Cons x xs)
  from Cons.prems have x: "x < length vs"
    and rest: "forEachM (\<lambda>verseIndex vs. if verseIndex < length vs
                then Inr (vs[verseIndex := (vs ! verseIndex)\<lparr>rhyme_type := t\<rparr>])
                else Inl TypeError) xs (vs[x := (vs ! x)\<lparr>rhyme_type := t\<rparr>]) = Inr vs'"
    by (auto split: if_splits)
  from Cons.IH [OF rest] show ?case
    using x by (auto simp: nth_list_update)
qed

lemma applyType_result:
  "applyType g vs = Inr vs' \<Longrightarrow>
   length vs' = length vs \<and>
   (\<forall>i<length vs. vs' ! i = (if i \<in> set (verses g) then (vs ! i)\<lparr>rhyme_type := finalType g\<rparr> else vs ! i))"
  unfolding applyType_def by (rule setType_result)

lemma typeSteps_keep:
  "forEachM (typeStep T) ks vs = Inr vs' \<Longrightarrow>
   length vs' = length vs \<and> (\<forall>i<length vs. rhyme_index (vs' ! i) = rhyme_index (vs ! i))"
proof (induction ks arbitrary: vs)
  case Nil
  then show ?case by simp
next
  case (Cons k ks)
  from Cons.prems obtain g vs1 where g: "map_of T k = Some g" and a: "applyType g vs = Inr vs1"
    and rest: "forEachM (typeStep T) ks vs1 = Inr vs'"
    by (auto simp: typeStep_def split: option.splits sum.splits)
  from applyType_result [OF a] Cons.IH [OF rest] show ?case by auto
qed

lemma typeSteps_untouched:
  "forEachM (typeStep T) ks vs = Inr vs' \<Longrightarrow> i < length vs \<Longrightarrow>
   (\<forall>k\<in>set ks. \<forall>g. map_of T k = Some g \<longrightarrow> i \<notin> set (verses g)) \<Longrightarrow>
   vs' ! i = vs ! i"
proof (induction ks arbitrary: vs)
  case Nil
  then show ?case by simp
next
  case (Cons k ks)
  from Cons.prems(1) obtain g vs1 where g: "map_of T k = Some g" and a: "applyType g vs = Inr vs1"
    and rest: "forEachM (typeStep T) ks vs1 = Inr vs'"
    by (auto simp: typeStep_def split: option.splits sum.splits)
  have "i \<notin> set (verses g)" using Cons.prems(3) g by auto
  then have "vs1 ! i = vs ! i" "i < length vs1"
    using applyType_result [OF a] Cons.prems(2) by auto
  then show ?case
    using Cons.IH [OF rest] Cons.prems(3) by auto
qed

lemma typeSteps_member:
  assumes "forEachM (typeStep T) ks vs = Inr vs'" and "distinct ks"
    and disj: "\<And>k1 g1 k2 g2. map_of T k1 = Some g1 \<Longrightarrow> map_of T k2 = Some g2 \<Longrightarrow> k1 \<noteq> k2 \<Longrightarrow>
                 set (verses g1) \<inter> set (verses g2) = {}"
    and "k \<in> set ks" and "map_of T k = Some g" and "i \<in> set (verses g)" and "i < length vs"
  shows "rhyme_type (vs' ! i) = finalType g"
  using assms(1,2,4,7)
proof (induction ks arbitrary: vs)
  case Nil
  then show ?case by simp
next
  case (Cons k0 ks)
  from Cons.prems(1) obtain g0 vs1 where g0: "map_of T k0 = Some g0" and a: "applyType g0 vs = Inr vs1"
    and rest: "forEachM (typeStep T) ks vs1 = Inr vs'"
    by (auto simp: typeStep_def split: option.splits sum.splits)
  have l1: "i < length vs1" using applyType_result [OF a] Cons.prems(4) by simp
  show ?case
  proof (cases "k = k0")
    case True
    then have gg: "g0 = g" using g0 assms(5) by simp
    have t1: "rhyme_type (vs1 ! i) = finalType g"
      using applyType_result [OF a] Cons.prems(4) assms(6) gg by simp
    have "\<forall>k'\<in>set ks. \<forall>g'. map_of T k' = Some g' \<longrightarrow> i \<notin> set (verses g')"
    proof (intro ballI allI impI)
      fix k' g' assume k': "k' \<in> set ks" and g': "map_of T k' = Some g'"
      then have "k' \<noteq> k" using Cons.prems(2) True by auto
      from disj [OF g' assms(5) this] show "i \<notin> set (verses g')" using assms(6) by auto
    qed
    from typeSteps_untouched [OF rest l1 this] show ?thesis using t1 by simp
  next
    case False
    then have "k \<in> set ks" using Cons.prems(3) by simp
    from Cons.IH [OF rest _ this l1] Cons.prems(2) show ?thesis by simp
  qed
qed

lemma objectKeys_set: "set (objectKeys T) = fst ` set T"
  by (auto simp: objectKeys_def)

lemma objectKeys_distinct: "distinct (map fst T) \<Longrightarrow> distinct (objectKeys T)"
  by (auto simp: objectKeys_def)

lemma finalizeTypes_typeStep:
  "finalizeTypes st = forEachM (typeStep (groupTable st)) (objectKeys (groupTable st)) (verseArray st)"
  by (simp add: finalizeTypes_def typeStep_def)

lemma determineRhymePattern_Inr:
  assumes "determineRhymePattern vs = Inr (vs', pat)" and "vs \<noteq> []"
  obtains st where "groupVerses vs = Inr st" "finalizeTypes st = Inr vs'" "pat = concat (rhymeIndices st)"
  using assms by (auto simp: determineRhymePattern_def split: sum.splits if_splits)

lemma concat_singletons: "(\<forall>x\<in>set xs. length x = 1) \<Longrightarrow> length (concat xs) = length xs"
  by (induction xs) auto

text \<open>What the final array holds, from the state after the loop.\<close>

lemma final_verses:
  assumes gv: "groupVerses vs = Inr st" and fin: "finalizeTypes st = Inr vs'"
  shows "length vs' = length vs"
    and "\<And>i. i < length vs \<Longrightarrow> rhyme_index (vs' ! i) = rhymeIndices st ! i"
    and "\<And>L g v. map_of (groupTable st) L = Some g \<Longrightarrow> v \<in> set (verses g) \<Longrightarrow>
           v < length vs \<and> rhyme_type (vs' ! v) = finalType g \<and> rhyme_index (vs' ! v) = L"
proof -
  from groupVerses_inv [OF gv] have lab: "labelled vs (length vs) st" and grp: "grouped (length vs) st"
    by auto
  from lab have len: "length (verseArray st) = length vs"
    and vri: "\<forall>i<length vs. rhyme_index (verseArray st ! i) = rhymeIndices st ! i"
    by (auto simp: labelled_def)
  from fin have run: "forEachM (typeStep (groupTable st)) (objectKeys (groupTable st)) (verseArray st) = Inr vs'"
    by (simp add: finalizeTypes_typeStep)
  from typeSteps_keep [OF run] show l: "length vs' = length vs"
    and ri: "\<And>i. i < length vs \<Longrightarrow> rhyme_index (vs' ! i) = rhymeIndices st ! i"
    using len vri by auto
  from grp have dist: "distinct (map fst (groupTable st))"
    and mem: "\<And>L g. map_of (groupTable st) L = Some g \<Longrightarrow>
        set (verses g) \<subseteq> {..<length vs} \<and> (\<forall>v\<in>set (verses g). rhymeIndices st ! v = L)"
    by (auto simp: grouped_def)
  fix L g v assume g: "map_of (groupTable st) L = Some g" and v: "v \<in> set (verses g)"
  have vl: "v < length vs" and lv: "rhymeIndices st ! v = L" using mem [OF g] v by auto
  have disj: "set (verses g1) \<inter> set (verses g2) = {}"
    if "map_of (groupTable st) k1 = Some g1" "map_of (groupTable st) k2 = Some g2" "k1 \<noteq> k2"
    for k1 g1 k2 g2
  proof (rule ccontr)
    assume "set (verses g1) \<inter> set (verses g2) \<noteq> {}"
    then obtain x where "x \<in> set (verses g1)" "x \<in> set (verses g2)" by auto
    then have "rhymeIndices st ! x = k1" "rhymeIndices st ! x = k2"
      using mem [OF that(1)] mem [OF that(2)] by auto
    then show False using that(3) by simp
  qed
  have "L \<in> set (objectKeys (groupTable st))"
    using g by (auto simp: objectKeys_set dest: map_of_SomeD intro: rev_image_eqI)
  from typeSteps_member [OF run objectKeys_distinct [OF dist] disj this g v] vl len
  have "rhyme_type (vs' ! v) = finalType g" by simp
  then show "v < length vs \<and> rhyme_type (vs' ! v) = finalType g \<and> rhyme_index (vs' ! v) = L"
    using vl lv ri by simp
qed

lemma labels_final:
  assumes "determineRhymePattern vs = Inr (vs', pat)" and j: "j < length vs"
  shows "rhyme_index (vs' ! j) =
     (case firstJudged vs j of
        Some k \<Rightarrow> rhyme_index (vs' ! k)
      | None \<Rightarrow> fromCharCode (65 + openedBefore vs j))"
proof -
  have ne: "vs \<noteq> []" using j by auto
  from assms(1) ne obtain st where gv: "groupVerses vs = Inr st" and fin: "finalizeTypes st = Inr vs'"
    by (rule determineRhymePattern_Inr)
  from groupVerses_inv [OF gv] have lab: "\<forall>i<length vs. rhymeIndices st ! i =
        (case firstJudged vs i of Some k \<Rightarrow> rhymeIndices st ! k
         | None \<Rightarrow> fromCharCode (65 + openedBefore vs i))"
    by (auto simp: labelled_def)
  have fj: "\<And>k. firstJudged vs j = Some k \<Longrightarrow> k < length vs"
    using j by (auto simp: firstJudged_def find_upt_Some)
  show ?thesis
    using lab j final_verses(2) [OF gv fin] fj by (auto split: option.splits)
qed

text \<open>
  Claim C1, as amended.  The decision whether a verse joins the group of a previous verse is the
  typed classification, not the broad test: verse \<open>j\<close> takes the label of the first earlier
  verse whose last-word key is related to its own by \<open>typedRelated\<close> (both keys non-empty, and
  a perfect-rhyme, assonance-table or consonance match), and when there is none it opens a group
  labelled with the next letter.
\<close>

theorem join_decision:
  assumes "determineRhymePattern vs = Inr (vs', pat)" and "j < length vs"
  shows "rhyme_index (vs' ! j) =
     (case firstJudged vs j of
        Some k \<Rightarrow> rhyme_index (vs' ! k)
      | None \<Rightarrow> fromCharCode (65 + openedBefore vs j))"
  using assms by (rule labels_final)

text \<open>
  Claim C2, as amended.  A verse whose last word has the same non-empty rhyme key as the last
  word of an earlier verse gets the same label as that verse.
\<close>

theorem direct_match:
  assumes det: "determineRhymePattern vs = Inr (vs', pat)"
    and ij: "i < j" and j: "j < length vs"
    and same: "lastKey (vs ! i) = lastKey (vs ! j)"
    and ne: "truthy (lastKey (vs ! j))"
  shows "rhyme_index (vs' ! j) = rhyme_index (vs' ! i)"
proof -
  have eq: "\<And>k. judged vs k i = judged vs k j"
    using same by (simp add: judged_def)
  have "judged vs i j"
    using same ne by (simp add: judged_def typedRelated_def isPerfectRhyme_def)
  then obtain k where k: "firstJudged vs j = Some k" and ki: "k \<le> i"
    and jk: "judged vs k j" and least: "\<forall>k'<k. \<not> judged vs k' j"
    using ij by (cases "firstJudged vs j")
      (auto simp: firstJudged_def find_upt_None find_upt_Some not_less [symmetric])
  have lj: "rhyme_index (vs' ! j) = rhyme_index (vs' ! k)"
    using labels_final [OF det j] k by simp
  show ?thesis
  proof (cases "k = i")
    case True
    then show ?thesis using lj by simp
  next
    case False
    then have "k < i" using ki by simp
    then have "firstJudged vs i = Some k"
      using jk least eq by (simp add: firstJudged_def find_upt_Some)
    moreover have "i < length vs" using ij j by simp
    ultimately have "rhyme_index (vs' ! i) = rhyme_index (vs' ! k)"
      using labels_final [OF det, of i] by simp
    then show ?thesis using lj by simp
  qed
qed

text \<open>
  Claim C9.  The pattern of a stanza has as many code units as the stanza has verses, and it is
  the concatenation of the labels of the verses in order.
\<close>

theorem pattern_is_labels:
  assumes "determineRhymePattern vs = Inr (vs', pat)"
  shows "length pat = length vs \<and> length vs' = length vs \<and> pat = concat (map rhyme_index vs')"
proof (cases "vs = []")
  case True
  then show ?thesis using assms by (simp add: determineRhymePattern_def)
next
  case False
  from assms False obtain st where gv: "groupVerses vs = Inr st" and fin: "finalizeTypes st = Inr vs'"
    and pat: "pat = concat (rhymeIndices st)"
    by (rule determineRhymePattern_Inr)
  from groupVerses_inv [OF gv] have lri: "length (rhymeIndices st) = length vs"
    and one: "\<forall>i<length vs. length (rhymeIndices st ! i) = 1"
    by (auto simp: labelled_def)
  have "rhymeIndices st = map rhyme_index vs'"
    using final_verses(1,2) [OF gv fin] lri by (auto intro: nth_equalityI)
  moreover have "\<forall>x\<in>set (rhymeIndices st). length x = 1"
    using one lri by (auto simp: in_set_conv_nth)
  ultimately show ?thesis
    using pat lri final_verses(1) [OF gv fin] concat_singletons [of "rhymeIndices st"] by simp
qed

text \<open>
  Claim C4.  Every verse of a group with exactly one member ends with the empty string as its
  \<open>rhyme_type\<close>.
\<close>

theorem singleton_group_empty_type:
  assumes "groupVerses vs = Inr st" and "determineRhymePattern vs = Inr (vs', pat)"
    and "map_of (groupTable st) L = Some g" and "length (verses g) = 1" and "v \<in> set (verses g)"
  shows "rhyme_type (vs' ! v) = None"
proof -
  have "vs \<noteq> []" using assms(1,3) by (auto simp: groupVerses_def)
  with assms(2) obtain st' where "groupVerses vs = Inr st'" "finalizeTypes st' = Inr vs'"
    by (rule determineRhymePattern_Inr)
  then have fin: "finalizeTypes st = Inr vs'" using assms(1) by simp
  from final_verses(3) [OF assms(1) fin assms(3,5)] show ?thesis
    using assms(4) by (simp add: finalType_def)
qed


section \<open>Grouping returns\<close>

lemma analyzeRhyme_strings:
  "extractRhymingSyllable w1 = JStr k1 \<Longrightarrow> extractRhymingSyllable w2 = JStr k2 \<Longrightarrow>
   \<exists>a. analyzeRhyme w1 w2 = Inr a"
  by (simp add: analyzeRhyme_def isConsonance_def Let_def)

lemma findRhyme_returns:
  "\<forall>x\<in>set xs. \<exists>k. lastKey x = JStr k \<Longrightarrow> extractRhymingSyllable cur = JStr c \<Longrightarrow>
   \<exists>r. findRhyme xs i cur = Inr r"
proof (induction xs arbitrary: i)
  case Nil
  then show ?case by simp
next
  case (Cons x xs)
  then obtain k where "extractRhymingSyllable (getLastWord (text x)) = JStr k"
    by (auto simp: lastKey_def)
  from analyzeRhyme_strings [OF this Cons.prems(2)] obtain a
    where "analyzeRhyme (getLastWord (text x)) cur = Inr a" by auto
  then show ?case using Cons by auto
qed

lemma processVerse_returns:
  assumes inv: "labelled vs m st" and g: "grouped m st" and m: "m < length vs"
    and keys: "\<forall>v\<in>set vs. \<exists>k. lastKey v = JStr k"
  shows "\<exists>st'. processVerse m st = Inr st'"
proof -
  from inv have len: "length (verseArray st) = length vs"
    and tx: "\<forall>i<length vs. text (verseArray st ! i) = text (vs ! i)"
    and lri: "length (rhymeIndices st) = m"
    by (auto simp: labelled_def)
  have key: "\<exists>k. lastKey (verseArray st ! i) = JStr k" if "i < length vs" for i
    using keys tx that by (auto simp: lastKey_def)
  have "\<forall>x\<in>set (take m (verseArray st)). \<exists>k. lastKey x = JStr k"
    using key len m by (auto simp: in_set_conv_nth)
  moreover obtain c where "extractRhymingSyllable (getLastWord (text (verseArray st ! m))) = JStr c"
    using key [OF m] by (auto simp: lastKey_def)
  ultimately obtain r where r: "findRhyme (take m (verseArray st)) 0 (getLastWord (text (verseArray st ! m))) = Inr r"
    using findRhyme_returns by blast
  show ?thesis
  proof (cases r)
    case None
    then show ?thesis using r by (simp add: processVerse_def Let_def)
  next
    case (Some ka)
    obtain k a where ka: "ka = (k, a)" by (cases ka)
    from scan_firstJudged(2) [OF len tx m r [unfolded Some ka]] have k: "k < m" by simp
    then have "rhymeIndices st ! k \<in> dom (map_of (groupTable st))"
      using g by (simp add: grouped_def)
    then show ?thesis
      using r Some ka k lri by (auto simp: processVerse_def Let_def)
  qed
qed

lemma groupVerses_prefix_returns:
  assumes keys: "\<forall>v\<in>set vs. \<exists>k. lastKey v = JStr k" and "m \<le> length vs"
  shows "\<exists>st. forEachM processVerse [0..<m] (initial vs) = Inr st"
  using assms(2)
proof (induction m)
  case 0
  then show ?case by simp
next
  case (Suc m)
  then obtain st where st: "forEachM processVerse [0..<m] (initial vs) = Inr st" by auto
  from groupVerses_prefix [OF st] Suc.prems have "labelled vs m st" "grouped m st" by auto
  from processVerse_returns [OF this _ keys] Suc.prems obtain st' where "processVerse m st = Inr st'"
    by auto
  then show ?case using st by (simp add: forEachM_append)
qed

lemma setType_returns:
  "\<forall>i\<in>set ixs. i < length vs \<Longrightarrow>
   \<exists>vs'. forEachM (\<lambda>verseIndex vs. if verseIndex < length vs
                then Inr (vs[verseIndex := (vs ! verseIndex)\<lparr>rhyme_type := t\<rparr>])
                else Inl TypeError) ixs vs = Inr vs'"
  by (induction ixs arbitrary: vs) auto

lemma typeSteps_returns:
  assumes "\<forall>k\<in>set ks. \<exists>g. map_of T k = Some g \<and> (\<forall>i\<in>set (verses g). i < n)"
  shows "length vs = n \<Longrightarrow> \<exists>vs'. forEachM (typeStep T) ks vs = Inr vs'"
  using assms
proof (induction ks arbitrary: vs)
  case Nil
  then show ?case by simp
next
  case (Cons k ks)
  then obtain g where g: "map_of T k = Some g" "\<forall>i\<in>set (verses g). i < length vs" by auto
  from setType_returns [OF g(2)] obtain vs1 where a: "applyType g vs = Inr vs1"
    by (auto simp: applyType_def)
  then have "length vs1 = n" using applyType_result [OF a] Cons.prems(1) by simp
  from Cons.IH [OF this] Cons.prems(2) obtain vs' where "forEachM (typeStep T) ks vs1 = Inr vs'"
    by auto
  then show ?case using g a by (simp add: typeStep_def)
qed

lemma determineRhymePattern_returns:
  assumes "\<forall>v\<in>set vs. \<exists>k. lastKey v = JStr k"
  shows "\<exists>vs' pat. determineRhymePattern vs = Inr (vs', pat)"
proof (cases "vs = []")
  case True
  then show ?thesis by (simp add: determineRhymePattern_def)
next
  case False
  from groupVerses_prefix_returns [OF assms, of "length vs"] obtain st
    where gv: "groupVerses vs = Inr st" by (auto simp: groupVerses_def initial_def)
  from groupVerses_inv [OF gv] have len: "length (verseArray st) = length vs"
    and grp: "\<And>L g. map_of (groupTable st) L = Some g \<Longrightarrow> set (verses g) \<subseteq> {..<length vs}"
    by (auto simp: labelled_def grouped_def)
  have "\<forall>k\<in>set (objectKeys (groupTable st)).
          \<exists>g. map_of (groupTable st) k = Some g \<and> (\<forall>i\<in>set (verses g). i < length vs)"
  proof
    fix k assume "k \<in> set (objectKeys (groupTable st))"
    then have "k \<in> dom (map_of (groupTable st))"
      by (simp add: objectKeys_set dom_map_of_conv_image_fst)
    then obtain g where "map_of (groupTable st) k = Some g" by auto
    then show "\<exists>g. map_of (groupTable st) k = Some g \<and> (\<forall>i\<in>set (verses g). i < length vs)"
      using grp by fastforce
  qed
  from typeSteps_returns [OF this len] obtain vs' where "finalizeTypes st = Inr vs'"
    by (auto simp: finalizeTypes_typeStep)
  then show ?thesis using gv False by (simp add: determineRhymePattern_def)
qed

section \<open>Key lengths, relation updates and syllable counts\<close>

lemma lower_unit_word: "length (filter isWordChar (lower_unit c)) \<le> 1"
  by (simp add: lower_unit_def isWordChar_def)

lemma cleanWord_length: "length (cleanWord w) \<le> length w"
proof (induction w)
  case Nil
  then show ?case by (simp add: cleanWord_def toLowerCase_def)
next
  case (Cons c w)
  then show ?case
    using lower_unit_word [of c] by (simp add: cleanWord_def toLowerCase_def)
qed

lemma ending_length: "length (ending cw) \<le> length cw \<and> length (ending cw) \<le> 4"
proof (cases "find (endsWith cw) patterns")
  case None
  then show ?thesis
    by (auto simp: ending_def Let_def slice_last_def)
next
  case (Some p)
  then have "endsWith cw p" "p \<in> set patterns"
    by (auto simp: find_Some_iff in_set_conv_nth)
  then have "length p \<le> length cw" "length p \<le> 4"
    by (auto simp: endsWith_def patterns_def str_def)
  then show ?thesis using Some by (simp add: ending_def)
qed

lemma specialCases_length:
  "map_of specialCases cw = Some v \<Longrightarrow>
   v \<noteq> [] \<and> length v \<le> 4 \<and> (cw \<notin> {str ''i'', str ''my'', str ''by''} \<longrightarrow> length v \<le> length cw)"
  by (auto simp: specialCases_def str_def split: if_splits)

text \<open>
  Claim C8, as amended.  For every word whose cleaned form is none of \<open>i\<close>, \<open>my\<close> and
  \<open>by\<close>, a rhyme key that is a string is no longer than the word.  (Extraction is a function
  of the word, so the same word always gives the same key.)
\<close>

theorem key_not_longer:
  assumes "cleanWord w \<notin> {str ''i'', str ''my'', str ''by''}"
    and "extractRhymingSyllable w = JStr k"
  shows "length k \<le> length w"
proof (cases "w = []")
  case True
  then show ?thesis using assms(2) by (simp add: extractRhymingSyllable_def)
next
  case False
  show ?thesis
  proof (cases "map_of specialCases (cleanWord w)")
    case None
    then have "k = ending (cleanWord w)"
      using assms(2) False
      by (auto simp: extractRhymingSyllable_def specialCase_def split: option.splits if_splits)
    then show ?thesis
      using ending_length [of "cleanWord w"] cleanWord_length [of w] by simp
  next
    case (Some v)
    then have "k = v"
      using assms(2) False specialCases_length [OF Some]
      by (auto simp: extractRhymingSyllable_def specialCase_def)
    then show ?thesis
      using specialCases_length [OF Some] assms(1) cleanWord_length [of w] by simp
  qed
qed

lemma key_length: "extractRhymingSyllable w = JStr k \<Longrightarrow> length k \<le> 4"
  using ending_length [of "cleanWord w"]
  by (auto simp: extractRhymingSyllable_def specialCase_def split: option.splits if_splits
      dest: specialCases_length)



lemma in_dropWhile: "x \<in> set xs \<Longrightarrow> \<not> P x \<Longrightarrow> x \<in> set (dropWhile P xs)"
  by (induction xs) auto

lemma trim_all_space: "(\<forall>c\<in>set (trim s). isSpace c) \<longleftrightarrow> (\<forall>c\<in>set s. isSpace c)"
proof
  assume a: "\<forall>c\<in>set (trim s). isSpace c"
  show "\<forall>c\<in>set s. isSpace c"
  proof (rule ccontr)
    assume "\<not> (\<forall>c\<in>set s. isSpace c)"
    then obtain x where "x \<in> set s" "\<not> isSpace x" by auto
    then have "x \<in> set (dropWhile isSpace s)" by (rule in_dropWhile)
    then have "x \<in> set (rev (dropWhile isSpace s))" by simp
    then have "x \<in> set (dropWhile isSpace (rev (dropWhile isSpace s)))"
      using \<open>\<not> isSpace x\<close> by (rule in_dropWhile)
    then have "x \<in> set (trim s)" by (simp add: trim_def)
    then show False using a \<open>\<not> isSpace x\<close> by auto
  qed
next
  assume "\<forall>c\<in>set s. isSpace c"
  then show "\<forall>c\<in>set (trim s). isSpace c"
    by (auto simp: trim_def dest!: set_dropWhileD)
qed

lemma split_spaces_empty:
  "filter (\<lambda>word. 0 < length word) (split_spaces s) = [] \<longleftrightarrow> (\<forall>c\<in>set s. isSpace c)"
proof (induction s rule: split_spaces.induct)
  case (1 s)
  show ?case
  proof (cases "dropWhile (\<lambda>c. \<not> isSpace c) s")
    case Nil
    then have "\<forall>c\<in>set s. \<not> isSpace c"
      by (metis (mono_tags, lifting) dropWhile_eq_Nil_conv)
    moreover have "split_spaces s = [s]"
      by (subst split_spaces.simps, subst Nil) simp
    ultimately show ?thesis
      by (cases s) auto
  next
    case (Cons r rest)
    have s: "s = takeWhile (\<lambda>c. \<not> isSpace c) s @ r # rest"
      using Cons by (metis takeWhile_dropWhile_id)
    have r: "isSpace r"
      using Cons by (metis (mono_tags, lifting) hd_dropWhile list.sel(1) list.distinct(1))
    have tw: "\<forall>c\<in>set (takeWhile (\<lambda>c. \<not> isSpace c) s). \<not> isSpace c"
      by (auto dest: set_takeWhileD)
    have rest: "(\<forall>c\<in>set (dropWhile isSpace rest). isSpace c) \<longleftrightarrow> (\<forall>c\<in>set rest. isSpace c)"
    proof
      assume a: "\<forall>c\<in>set (dropWhile isSpace rest). isSpace c"
      show "\<forall>c\<in>set rest. isSpace c"
      proof (rule ccontr)
        assume "\<not> (\<forall>c\<in>set rest. isSpace c)"
        then obtain x where "x \<in> set rest" "\<not> isSpace x" by auto
        then have "x \<in> set (dropWhile isSpace rest)" by (rule in_dropWhile)
        then show False using a \<open>\<not> isSpace x\<close> by auto
      qed
    next
      assume "\<forall>c\<in>set rest. isSpace c"
      then show "\<forall>c\<in>set (dropWhile isSpace rest). isSpace c"
        by (auto dest!: set_dropWhileD)
    qed
    have "(\<forall>c\<in>set s. isSpace c) \<longleftrightarrow>
          takeWhile (\<lambda>c. \<not> isSpace c) s = [] \<and> (\<forall>c\<in>set rest. isSpace c)"
    proof -
      have "set s = set (takeWhile (\<lambda>c. \<not> isSpace c) s) \<union> insert r (set rest)"
        by (subst s) simp
      then show ?thesis using tw r
        by (cases "takeWhile (\<lambda>c. \<not> isSpace c) s") auto
    qed
    moreover have "split_spaces s =
        takeWhile (\<lambda>c. \<not> isSpace c) s # split_spaces (dropWhile isSpace rest)"
      by (subst split_spaces.simps, subst Cons) simp
    ultimately show ?thesis
      using 1 [OF Cons] rest by simp
  qed
qed


lemma kept_not_space: "isWordChar c \<or> c = 39 \<or> c \<in> set accented \<Longrightarrow> \<not> isSpace c"
  by (auto simp: isWordChar_def isSpace_def accented_def)

lemma ball_map: "(\<forall>c\<in>set (map f xs). P c) \<longleftrightarrow> (\<forall>c\<in>set xs. P (f c))"
  by (induction xs) auto

lemma syllableWords_empty: "syllableWords line = [] \<longleftrightarrow> \<not> hasSyllableChar line"
proof -
  have "isSpace (if isWordChar c \<or> isSpace c \<or> c = 39 \<or> c \<in> set accented then c else 32)
        \<longleftrightarrow> \<not> (isWordChar c \<or> c = 39 \<or> c \<in> set accented)" for c
    using kept_not_space [of c] by (auto simp: isSpace_def)
  then have "(\<forall>c\<in>set (map (\<lambda>c. if isWordChar c \<or> isSpace c \<or> c = 39 \<or> c \<in> set accented then c else 32)
                      (toLowerCase line)). isSpace c) \<longleftrightarrow> \<not> hasSyllableChar line"
    unfolding hasSyllableChar_def list_ex_iff ball_map by blast
  moreover have "syllableWords line = [] \<longleftrightarrow>
      (\<forall>c\<in>set (trim (map (\<lambda>c. if isWordChar c \<or> isSpace c \<or> c = 39 \<or> c \<in> set accented then c else 32)
                      (toLowerCase line))). isSpace c)"
    unfolding syllableWords_def Let_def by (rule split_spaces_empty)
  ultimately show ?thesis
    using trim_all_space by blast
qed

lemma letters_not_proto: "letters w \<noteq> str ''__proto__''"
proof
  assume "letters w = str ''__proto__''"
  moreover have "\<forall>c\<in>set (letters w). 97 \<le> c" by (simp add: letters_def)
  ultimately show False by (simp add: str_def)
qed

lemma countWordSyllables_number:
  "letters w \<noteq> str ''constructor'' \<Longrightarrow> \<exists>n. countWordSyllables w = Inr n"
  using letters_not_proto [of w]
  by (auto simp: countWordSyllables_def Let_def syllableSpecialCase_def inherited_property_def
      letters_def split: option.splits sum.splits)

lemma totalSyllables_number:
  "\<forall>w\<in>set ws. \<exists>n. countWordSyllables w = Inr n \<Longrightarrow>
   \<exists>t. fold (\<lambda>word tot.
             case tot of
               None \<Rightarrow> None
             | Some t \<Rightarrow> (case countWordSyllables word of Inl obj \<Rightarrow> None | Inr n \<Rightarrow> Some (t + n)))
          ws (Some a) = Some t"
proof (induction ws arbitrary: a)
  case Nil
  then show ?case by simp
next
  case (Cons w ws)
  then obtain n where "countWordSyllables w = Inr n" by auto
  then show ?case using Cons by simp
qed

text \<open>
  Claim C5, as amended.  When no word of the line spells \<open>constructor\<close>, the syllable
  counter returns an integer; it is at least 1 when the lower-cased line holds a word character,
  an apostrophe or an accented vowel, and 0 otherwise (empty, white space only, punctuation
  only).
\<close>

theorem syllable_count_contract:
  assumes "\<forall>w\<in>set (syllableWords line). letters w \<noteq> str ''constructor''"
  shows "\<exists>n. countSyllables line = Number n \<and>
             (hasSyllableChar line \<longrightarrow> 1 \<le> n) \<and> (\<not> hasSyllableChar line \<longrightarrow> n = 0)"
proof (cases "hasSyllableChar line")
  case False
  then have "syllableWords line = []" by (simp add: syllableWords_empty)
  then show ?thesis using False by (simp add: countSyllables_def)
next
  case True
  then have ne: "syllableWords line \<noteq> []" by (simp add: syllableWords_empty)
  have "line \<noteq> []" using True by (auto simp: hasSyllableChar_def toLowerCase_def)
  moreover obtain t where "totalSyllables (syllableWords line) = Some t"
    using totalSyllables_number [of "syllableWords line" 0] assms countWordSyllables_number
    by (auto simp: totalSyllables_def)
  ultimately show ?thesis
    using True ne by (simp add: countSyllables_def)
qed

section \<open>Evaluation on examples\<close>

lemmas char_defs = str_def isSpace_def isWordChar_def lower_unit_def toLowerCase_def trim_def
lemmas key_defs = extractRhymingSyllable_def cleanWord_def specialCase_def specialCases_def
  inherited_property_def ending_def patterns_def endsWith_def slice_last_def endsVowelConsonant_def
  vowels_aeiou_def consonants_y_def
lemmas typed_defs = isPerfectRhyme_def perfectRhymeGroups_def isAssonance_def
  assonanceGroups_def isConsonance_def consonants_y_def Let_def
lemmas loop_defs = processVerse_def array_set_def fromCharCode_def updateGroupType_def Let_def
lemmas final_defs = finalizeTypes_def objectKeys_def isArrayIndex_def decimal_def applyType_def
  finalType_def labelledVerse_def verseOf_def str_def

lemma verseOf_text [simp]: "text (verseOf i l) = l"
  by (simp add: verseOf_def)

lemma upt_2: "[0..<2] = [0, 1]" and upt_3: "[0..<3] = [0, 1, 2]" and upt_4: "[0..<4] = [0, 1, 2, 3]"
  by (simp_all add: upt_conv_Cons)

lemma last_words:
  "getLastWord (str ''music'') = str ''music''"
  "getLastWord (str ''maniac'') = str ''maniac''"
  "getLastWord (str ''milwaukee'') = str ''milwaukee''"
  "getLastWord (str ''cat'') = str ''cat''"
  "getLastWord (str ''dog'') = str ''dog''"
  "getLastWord (str ''hat'') = str ''hat''"
  "getLastWord (str ''red'') = str ''red''"
  "getLastWord (str ''sweet'') = str ''sweet''"
  "getLastWord (str ''!'') = str ''!''"
  "getLastWord (str ''?'') = str ''?''"
  "getLastWord (str ''Roses are red'') = str ''red''"
  "getLastWord (str ''Violets are blue'') = str ''blue''"
  "getLastWord (str ''Sugar is sweet'') = str ''sweet''"
  "getLastWord (str ''And so are you'') = str ''you''"
  by (simp_all add: getLastWord_def char_defs split_spaces.simps)

lemma keys:
  "extractRhymingSyllable (str ''music'') = JStr (str ''ic'')"
  "extractRhymingSyllable (str ''maniac'') = JStr (str ''ac'')"
  "extractRhymingSyllable (str ''milwaukee'') = JStr (str ''kee'')"
  "extractRhymingSyllable (str ''cat'') = JStr (str ''at'')"
  "extractRhymingSyllable (str ''dog'') = JStr (str ''og'')"
  "extractRhymingSyllable (str ''hat'') = JStr (str ''at'')"
  "extractRhymingSyllable (str ''red'') = JStr (str ''ed'')"
  "extractRhymingSyllable (str ''sweet'') = JStr (str ''et'')"
  "extractRhymingSyllable (str ''blue'') = JStr (str ''lue'')"
  "extractRhymingSyllable (str ''you'') = JStr (str ''ou'')"
  "extractRhymingSyllable (str ''!'') = JStr []"
  "extractRhymingSyllable (str ''?'') = JStr []"
  by (simp_all add: char_defs key_defs)

lemma analyses:
  "analyzeRhyme (str ''music'') (str ''maniac'') = Inr \<lparr>rhymes = True, type = Consonance\<rparr>"
  "analyzeRhyme (str ''music'') (str ''milwaukee'') = Inr \<lparr>rhymes = True, type = Assonance\<rparr>"
  "analyzeRhyme (str ''cat'') (str ''dog'') = Inr \<lparr>rhymes = False, type = NoRel\<rparr>"
  "analyzeRhyme (str ''cat'') (str ''hat'') = Inr \<lparr>rhymes = True, type = Rhyme\<rparr>"
  "analyzeRhyme (str ''red'') (str ''sweet'') = Inr \<lparr>rhymes = False, type = NoRel\<rparr>"
  "analyzeRhyme (str ''red'') (str ''blue'') = Inr \<lparr>rhymes = False, type = NoRel\<rparr>"
  "analyzeRhyme (str ''red'') (str ''you'') = Inr \<lparr>rhymes = False, type = NoRel\<rparr>"
  "analyzeRhyme (str ''blue'') (str ''sweet'') = Inr \<lparr>rhymes = False, type = NoRel\<rparr>"
  "analyzeRhyme (str ''blue'') (str ''you'') = Inr \<lparr>rhymes = False, type = NoRel\<rparr>"
  "analyzeRhyme (str ''sweet'') (str ''you'') = Inr \<lparr>rhymes = False, type = NoRel\<rparr>"
  "analyzeRhyme (str ''!'') (str ''?'') = Inr \<lparr>rhymes = False, type = NoRel\<rparr>"
  unfolding analyzeRhyme_def keys by (simp_all add: typed_defs str_def)

lemma group_cat: "groupVerses catVerses = Inr catGrouping"
  unfolding groupVerses_def catVerses_def catGrouping_def
  by (simp add: upt_3 loop_defs last_words analyses) (simp add: str_def labelledVerse_def verseOf_def)

lemma pattern_cat:
  "determineRhymePattern catVerses =
     Inr ([labelledVerse 1 (str ''cat'') (str ''A'') (Some Rhyme),
           labelledVerse 2 (str ''dog'') (str ''B'') None,
           labelledVerse 3 (str ''hat'') (str ''A'') (Some Rhyme)], str ''ABA'')"
  unfolding determineRhymePattern_def group_cat
  by (simp add: catVerses_def catGrouping_def final_defs)


lemma pattern_music:
  "determineRhymePattern musicVerses =
     Inr ([labelledVerse 1 (str ''music'') (str ''A'') (Some Assonance),
           labelledVerse 2 (str ''maniac'') (str ''A'') (Some Assonance),
           labelledVerse 3 (str ''milwaukee'') (str ''A'') (Some Assonance)], str ''AAA'')"
  unfolding determineRhymePattern_def groupVerses_def musicVerses_def
  by (simp add: upt_3 loop_defs last_words analyses) (simp add: final_defs)


lemma pattern_red:
  "determineRhymePattern redVerses =
     Inr ([labelledVerse 1 (str ''red'') (str ''A'') None,
           labelledVerse 2 (str ''sweet'') (str ''B'') None], str ''AB'')"
  unfolding determineRhymePattern_def groupVerses_def redVerses_def
  by (simp add: upt_2 loop_defs last_words analyses) (simp add: final_defs)

lemma pattern_punct:
  "determineRhymePattern punctVerses =
     Inr ([labelledVerse 1 (str ''!'') (str ''A'') None,
           labelledVerse 2 (str ''?'') (str ''B'') None], str ''AB'')"
  unfolding determineRhymePattern_def groupVerses_def punctVerses_def
  by (simp add: upt_2 loop_defs last_words analyses) (simp add: final_defs)

lemma broad_red_sweet: "wordsRhyme (str ''red'') (str ''sweet'') = Inr True"
  unfolding wordsRhyme_def keys
  by (simp add: rhymeGroups_def checkAssonance_def similarVowels_def vowelSimilarity_def
      consonants_no_y_def toLowerCase_def lower_unit_def Let_def str_def)

text \<open>
  Counterexample to claim C1 as stated: the broad test holds for \<open>red\<close> and \<open>sweet\<close>
  (equal vowel patterns), yet the second verse does not join the group of the first.
\<close>

theorem broad_test_does_not_decide:
  "wordsRhyme (str ''red'') (str ''sweet'') = Inr True \<and>
   determineRhymePattern redVerses =
     Inr ([labelledVerse 1 (str ''red'') (str ''A'') None,
           labelledVerse 2 (str ''sweet'') (str ''B'') None], str ''AB'')"
  using broad_red_sweet pattern_red by simp

text \<open>
  Witness for claim C1: in the stanza \<open>music / maniac / milwaukee\<close> the third verse takes
  the label of the first.
\<close>

theorem join_decision_witness:
  "determineRhymePattern musicVerses =
     Inr ([labelledVerse 1 (str ''music'') (str ''A'') (Some Assonance),
           labelledVerse 2 (str ''maniac'') (str ''A'') (Some Assonance),
           labelledVerse 3 (str ''milwaukee'') (str ''A'') (Some Assonance)], str ''AAA'') \<and>
   2 < length musicVerses \<and>
   firstJudged musicVerses 2 = Some 0 \<and>
   rhyme_index ([labelledVerse 1 (str ''music'') (str ''A'') (Some Assonance),
           labelledVerse 2 (str ''maniac'') (str ''A'') (Some Assonance),
           labelledVerse 3 (str ''milwaukee'') (str ''A'') (Some Assonance)] ! 2) =
   rhyme_index ([labelledVerse 1 (str ''music'') (str ''A'') (Some Assonance),
           labelledVerse 2 (str ''maniac'') (str ''A'') (Some Assonance),
           labelledVerse 3 (str ''milwaukee'') (str ''A'') (Some Assonance)] ! 0)"
proof -
  have len: "2 < length musicVerses" by (simp add: musicVerses_def)
  have "judged musicVerses 0 2"
    unfolding judged_def lastKey_def musicVerses_def
    by (simp add: last_words keys) (simp add: typedRelated_def typed_defs str_def)
  then have f: "firstJudged musicVerses 2 = Some 0"
    by (simp add: firstJudged_def upt_2)
  from join_decision [OF pattern_music len] f pattern_music len show ?thesis by simp
qed

text \<open>
  Counterexample to claim C2 as stated: the last words \<open>!\<close> and \<open>?\<close> have the same
  (empty) key and get different labels.
\<close>

theorem empty_keys_no_direct_match:
  "lastKey (punctVerses ! 0) = lastKey (punctVerses ! 1) \<and>
   determineRhymePattern punctVerses =
     Inr ([labelledVerse 1 (str ''!'') (str ''A'') None,
           labelledVerse 2 (str ''?'') (str ''B'') None], str ''AB'') \<and>
   str ''A'' \<noteq> str ''B''"
  using pattern_punct by (simp add: lastKey_def punctVerses_def last_words keys) (simp add: str_def)

text \<open>
  Witness for claim C2: \<open>cat\<close> and \<open>hat\<close> have the key \<open>at\<close> and share the label
  \<open>A\<close>.
\<close>

theorem direct_match_witness:
  "determineRhymePattern catVerses =
     Inr ([labelledVerse 1 (str ''cat'') (str ''A'') (Some Rhyme),
           labelledVerse 2 (str ''dog'') (str ''B'') None,
           labelledVerse 3 (str ''hat'') (str ''A'') (Some Rhyme)], str ''ABA'') \<and>
   lastKey (catVerses ! 0) = lastKey (catVerses ! 2) \<and>
   truthy (lastKey (catVerses ! 2)) \<and>
   rhyme_index ([labelledVerse 1 (str ''cat'') (str ''A'') (Some Rhyme),
           labelledVerse 2 (str ''dog'') (str ''B'') None,
           labelledVerse 3 (str ''hat'') (str ''A'') (Some Rhyme)] ! 2) =
   rhyme_index ([labelledVerse 1 (str ''cat'') (str ''A'') (Some Rhyme),
           labelledVerse 2 (str ''dog'') (str ''B'') None,
           labelledVerse 3 (str ''hat'') (str ''A'') (Some Rhyme)] ! 0)"
proof -
  have ij: "(0::nat) < 2" by simp
  have len: "2 < length catVerses" by (simp add: catVerses_def)
  have same: "lastKey (catVerses ! 0) = lastKey (catVerses ! 2)"
    by (simp add: lastKey_def catVerses_def last_words keys)
  have ne: "truthy (lastKey (catVerses ! 2))"
    by (simp add: lastKey_def catVerses_def last_words keys) (simp add: str_def)
  from direct_match [OF pattern_cat ij len same ne] pattern_cat same ne show ?thesis by simp
qed



text \<open>
  Witness for claim C4: the group \<open>B\<close> of the stanza \<open>cat / dog / hat\<close> holds the second
  verse only.
\<close>

theorem singleton_group_witness:
  "groupVerses catVerses = Inr catGrouping \<and>
   determineRhymePattern catVerses =
     Inr ([labelledVerse 1 (str ''cat'') (str ''A'') (Some Rhyme),
           labelledVerse 2 (str ''dog'') (str ''B'') None,
           labelledVerse 3 (str ''hat'') (str ''A'') (Some Rhyme)], str ''ABA'') \<and>
   map_of (groupTable catGrouping) (str ''B'') = Some \<lparr>verses = [1], group_type = NoRel\<rparr> \<and>
   rhyme_type ([labelledVerse 1 (str ''cat'') (str ''A'') (Some Rhyme),
           labelledVerse 2 (str ''dog'') (str ''B'') None,
           labelledVerse 3 (str ''hat'') (str ''A'') (Some Rhyme)] ! 1) = None"
proof -
  have g: "map_of (groupTable catGrouping) (str ''B'') = Some \<lparr>verses = [1], group_type = NoRel\<rparr>"
    by (simp add: catGrouping_def str_def)
  have one: "length (verses \<lparr>verses = [1], group_type = NoRel\<rparr>) = 1" by simp
  have mem: "1 \<in> set (verses \<lparr>verses = [1], group_type = NoRel\<rparr>)" by simp
  from singleton_group_empty_type [OF group_cat pattern_cat g one mem] group_cat pattern_cat g
  show ?thesis by simp
qed


text \<open>
  Witness for claim C9: the stanza \<open>red / sweet\<close> has the pattern \<open>AB\<close>.
\<close>

theorem pattern_is_labels_witness:
  "determineRhymePattern redVerses =
     Inr ([labelledVerse 1 (str ''red'') (str ''A'') None,
           labelledVerse 2 (str ''sweet'') (str ''B'') None], str ''AB'') \<and>
   length (str ''AB'') = length redVerses \<and>
   str ''AB'' = concat (map rhyme_index [labelledVerse 1 (str ''red'') (str ''A'') None,
           labelledVerse 2 (str ''sweet'') (str ''B'') None])"
  using pattern_is_labels [OF pattern_red] pattern_red by blast

text \<open>
  Witness for claim C7: the two tests on swapped words.
\<close>

theorem rhyme_tests_symmetric_witness:
  "wordsRhyme (str ''sweet'') (str ''red'') = Inr True \<and>
   analyzeRhyme (str ''maniac'') (str ''music'') = Inr \<lparr>rhymes = True, type = Consonance\<rparr>"
  using rhyme_tests_symmetric [of "str ''sweet''" "str ''red''"]
    rhyme_tests_symmetric [of "str ''maniac''" "str ''music''"]
    broad_red_sweet analyses(1)
  by simp

text \<open>
  Counterexample to claim C8 as stated: the exception table maps the one-letter word \<open>i\<close> to
  the key \<open>igh\<close>.
\<close>

theorem exception_key_longer:
  "extractRhymingSyllable (str ''i'') = JStr (str ''igh'') \<and> length (str ''i'') < length (str ''igh'')"
  by (simp add: char_defs key_defs)

text \<open>
  Witness for claim C8: the word \<open>Singing!\<close> has the key \<open>ing\<close>.
\<close>

theorem key_not_longer_witness:
  "cleanWord (str ''Singing!'') = str ''singing'' \<and>
   extractRhymingSyllable (str ''Singing!'') = JStr (str ''ing'') \<and>
   length (str ''ing'') \<le> length (str ''Singing!'')"
proof -
  have c: "cleanWord (str ''Singing!'') = str ''singing''"
    by (simp add: cleanWord_def char_defs)
  have n: "cleanWord (str ''Singing!'') \<notin> {str ''i'', str ''my'', str ''by''}"
    by (simp add: c) (simp add: str_def)
  have k: "extractRhymingSyllable (str ''Singing!'') = JStr (str ''ing'')"
    by (simp add: char_defs key_defs)
  from key_not_longer [OF n k] c k show ?thesis by simp
qed

lemma words_punct: "syllableWords (str ''!'') = []"
  by (simp add: syllableWords_def char_defs accented_def split_spaces.simps)

text \<open>
  Counterexample to claim C5 as stated: the line \<open>!\<close> is non-empty and holds no white
  space, and its count is 0.
\<close>

theorem punctuation_counts_zero:
  "str ''!'' \<noteq> [] \<and> \<not> list_all isSpace (str ''!'') \<and> countSyllables (str ''!'') = Number 0"
  unfolding countSyllables_def words_punct by (simp add: char_defs)

lemma words_la_amica: "syllableWords (str ''la amica'') = [str ''la'', str ''amica'']"
  by (simp add: syllableWords_def char_defs accented_def split_spaces.simps)

lemma letters_la: "letters (str ''la'') = str ''la''" and letters_amica: "letters (str ''amica'') = str ''amica''"
  by (simp_all add: letters_def char_defs)

lemma word_la: "countWordSyllables (str ''la'') = Inr 1"
  unfolding countWordSyllables_def letters_la
  by (simp add: syllableSpecialCase_def syllableSpecialCases_def str_def)

lemma groups_amica: "fold (vowel_step (str ''amica'')) [0..<length (str ''amica'')] (0, False) = (3, True)"
  by (simp add: str_def vowel_step_def vowels_def accented_def upt_conv_Cons)


lemma vowelGroups_amica: "vowelGroups (str ''amica'') = 3"
  unfolding vowelGroups_def groups_amica
  by (simp add: endsWith_def includes_str_def str_def upt_conv_Cons)

lemma word_amica: "countWordSyllables (str ''amica'') = Inr 3"
  unfolding countWordSyllables_def Let_def letters_amica vowelGroups_amica
  by (simp add: syllableSpecialCase_def syllableSpecialCases_def inherited_property_def str_def)



lemma clean_la: "sinalefeClean (str ''la'') = str ''la''"
  and clean_amica: "sinalefeClean (str ''amica'') = str ''amica''"
  by (simp_all add: sinalefeClean_def char_defs accented_def)

lemma elides_la_amica: "elides (str ''la'') (str ''amica'')"
  by (simp add: elides_def isVowel_def str_def)

lemma sinalefe_la_amica: "countSinalefe [str ''la'', str ''amica''] = 1"
  by (simp add: countSinalefe_def clean_la clean_amica elides_la_amica)

lemma count_la_amica: "countSyllables (str ''la amica'') = Number 3"
  unfolding countSyllables_def words_la_amica
  by (simp add: totalSyllables_def word_la word_amica sinalefe_la_amica) (simp add: str_def)

text \<open>
  Witness for claim C5: the line \<open>la amica\<close> has two words, four syllables and one
  elision.
\<close>

theorem syllable_count_contract_witness:
  "syllableWords (str ''la amica'') = [str ''la'', str ''amica''] \<and>
   hasSyllableChar (str ''la amica'') \<and>
   countSyllables (str ''la amica'') = Number 3"
proof -
  have h: "\<forall>w\<in>set (syllableWords (str ''la amica'')). letters w \<noteq> str ''constructor''"
    unfolding words_la_amica by (simp add: letters_la letters_amica) (simp add: str_def)
  have c: "hasSyllableChar (str ''la amica'')"
    by (simp add: hasSyllableChar_def char_defs)
  from syllable_count_contract [OF h] c count_la_amica words_la_amica show ?thesis by simp
qed

lemma stanzas_roses: "splitIntoStanzas roses = [roses]"
  by (simp add: splitIntoStanzas_def roses_def char_defs after_break_def)

lemma lines_roses:
  "split_lines roses =
     [str ''Roses are red'', str ''Violets are blue'', str ''Sugar is sweet'', str ''And so are you'']"
  by (simp add: roses_def str_def)

lemma trim_lines:
  "trim (str ''Roses are red'') = str ''Roses are red''"
  "trim (str ''Violets are blue'') = str ''Violets are blue''"
  "trim (str ''Sugar is sweet'') = str ''Sugar is sweet''"
  "trim (str ''And so are you'') = str ''And so are you''"
  by (simp_all add: char_defs)

lemma verses_roses:
  "parseStanzaIntoVerses roses 0 =
     [verseOf 1 (str ''Roses are red''), verseOf 2 (str ''Violets are blue''),
      verseOf 3 (str ''Sugar is sweet''), verseOf 4 (str ''And so are you'')]"
  unfolding parseStanzaIntoVerses_def lines_roses
  by (simp add: Let_def trim_lines)
    (simp add: upt_4 verseOf_def str_def)


lemma pattern_roses:
  "determineRhymePattern
     [verseOf 1 (str ''Roses are red''), verseOf 2 (str ''Violets are blue''),
      verseOf 3 (str ''Sugar is sweet''), verseOf 4 (str ''And so are you'')] =
     Inr ([labelledVerse 1 (str ''Roses are red'') (str ''A'') None,
           labelledVerse 2 (str ''Violets are blue'') (str ''B'') None,
           labelledVerse 3 (str ''Sugar is sweet'') (str ''C'') None,
           labelledVerse 4 (str ''And so are you'') (str ''D'') None], str ''ABCD'')"
  unfolding determineRhymePattern_def groupVerses_def
  by (simp add: upt_4 loop_defs last_words analyses) (simp add: final_defs)

text \<open>
  Claim C6.  The four lines of the usage example form one stanza whose verses open four groups:
  the pattern is \<open>ABCD\<close>, not \<open>ABCB\<close>.  The keys of \<open>blue\<close> and \<open>you\<close> are \<open>lue\<close> and
  \<open>ou\<close>, which the typed classification does not relate.
\<close>

theorem roses_pattern:
  "parseLyrics roses =
     Inr [\<lparr>stanza_index = 1,
           stanza_verses =
             [labelledVerse 1 (str ''Roses are red'') (str ''A'') None,
              labelledVerse 2 (str ''Violets are blue'') (str ''B'') None,
              labelledVerse 3 (str ''Sugar is sweet'') (str ''C'') None,
              labelledVerse 4 (str ''And so are you'') (str ''D'') None],
           rhyme_pattern = str ''ABCD''\<rparr>] \<and>
   lastKey (verseOf 2 (str ''Violets are blue'')) = JStr (str ''lue'') \<and>
   lastKey (verseOf 4 (str ''And so are you'')) = JStr (str ''ou'')"
proof -
  have "determineRhymePattern (parseStanzaIntoVerses roses 0) =
     Inr ([labelledVerse 1 (str ''Roses are red'') (str ''A'') None,
           labelledVerse 2 (str ''Violets are blue'') (str ''B'') None,
           labelledVerse 3 (str ''Sugar is sweet'') (str ''C'') None,
           labelledVerse 4 (str ''And so are you'') (str ''D'') None], str ''ABCD'')"
    unfolding verses_roses by (rule pattern_roses)
  then show ?thesis
    unfolding parseLyrics_def stanzas_roses
    by (simp add: lastKey_def last_words keys)
qed

subsection \<open>The word \<open>constructor\<close>\<close>

text \<open>
  The inherited property in effect: the key of the word \<open>constructor\<close> is the function
  \<open>Object\<close>, comparing it with the key of another word throws, and the syllable count of a
  line that holds the word is \<open>NaN\<close>.
\<close>

lemma key_constructor: "extractRhymingSyllable (str ''constructor'') = JObj ObjectFunction"
  by (simp add: char_defs key_defs)

lemma constructor_throws: "analyzeRhyme (str ''constructor'') (str ''cat'') = Inl TypeError"
  unfolding analyzeRhyme_def key_constructor keys
  by (simp add: typed_defs str_def)

lemma words_constructor: "syllableWords (str ''constructor'') = [str ''constructor'']"
  by (simp add: syllableWords_def char_defs accented_def split_spaces.simps)

lemma word_constructor: "countWordSyllables (str ''constructor'') = Inl ObjectFunction"
  by (simp add: countWordSyllables_def letters_def syllableSpecialCase_def inherited_property_def Let_def char_defs syllableSpecialCases_def)

lemma count_constructor: "countSyllables (str ''constructor'') = NaN"
  unfolding countSyllables_def words_constructor
  by (simp add: totalSyllables_def word_constructor) (simp add: str_def)

end
